theory Spec2Isabelle
  imports Main "HOL-Library.Char_ord" "HOL-Library.List_Lexorder"
begin

section \<open>Python values met in a metadata table\<close>

text \<open>
  The functions of \<^verbatim>\<open>_dtypes_utils.py\<close> read scalars out of a pandas table. A scalar is a
  string, a float, an integer, a boolean or \<^verbatim>\<open>None\<close>. The bits of a float are not
  modelled: the type of floats is a parameter \<open>'f\<close>, and what Python does with a float
  (its \<^verbatim>\<open>str\<close>, the float a literal denotes, the float of an integer, the NaN) is a
  record of operations handed to every function that needs it. Strings are Isabelle
  strings, read as ASCII text.
\<close>

datatype error = TypeError | KeyError | ValueError | OverflowError | IndexError

datatype 'f pyval = PStr string | PFloat 'f | PInt int | PBool bool | PNone

record 'f float_ops =
  float_repr :: "'f \<Rightarrow> string"
  float_strtod :: "string \<Rightarrow> 'f"
  float_of_int :: "int \<Rightarrow> 'f"
  float_nan :: 'f

subsection \<open>\<^verbatim>\<open>str(V)\<close> and \<^verbatim>\<open>str.lower()\<close>\<close>

definition digit_char :: "nat \<Rightarrow> char" where
  "digit_char n = char_of (48 + n)"

function str_of_nat :: "nat \<Rightarrow> string" where
  "str_of_nat n = (if n < 10 then [digit_char n] else str_of_nat (n div 10) @ [digit_char (n mod 10)])"
  by pat_completeness auto
termination
  by (relation "measure (\<lambda>n. n)") auto

declare str_of_nat.simps [simp del]

definition str_of_int :: "int \<Rightarrow> string" where
  "str_of_int i = (if i < 0 then CHR ''-'' # str_of_nat (nat (- i)) else str_of_nat (nat i))"

fun py_str :: "'f float_ops \<Rightarrow> 'f pyval \<Rightarrow> string" where
  "py_str fo (PStr s) = s"
| "py_str fo (PFloat f) = float_repr fo f"
| "py_str fo (PInt i) = str_of_int i"
| "py_str fo (PBool b) = (if b then ''True'' else ''False'')"
| "py_str fo PNone = ''None''"

definition lower_char :: "char \<Rightarrow> char" where
  "lower_char c = (if CHR ''A'' \<le> c \<and> c \<le> CHR ''Z'' then char_of (of_char c + (32::nat)) else c)"

definition lower :: "string \<Rightarrow> string" where
  "lower s = map lower_char s"

definition isdigit :: "char \<Rightarrow> bool" where
  "isdigit c = (CHR ''0'' \<le> c \<and> c \<le> CHR ''9'')"

subsection \<open>Whether \<^verbatim>\<open>float(V)\<close> returns\<close>

text \<open>
  \<^verbatim>\<open>float\<close> of a string strips ASCII white space, accepts underscores between digits
  only, and then wants the whole text to be a decimal literal (digits with an optional
  point and an optional exponent) or a signed \<^verbatim>\<open>inf\<close>, \<^verbatim>\<open>infinity\<close> or
  \<^verbatim>\<open>nan\<close> in any letter case. The source only asks whether the call raises, so the
  model is a recogniser.
\<close>

definition is_space :: "char \<Rightarrow> bool" where
  "is_space c = (c \<in> set [CHR '' '', CHR 0x09, CHR 0x0A, CHR 0x0B, CHR 0x0C, CHR 0x0D])"

definition strip :: "string \<Rightarrow> string" where
  "strip s = rev (dropWhile is_space (rev (dropWhile is_space s)))"

fun underscores_ok :: "char \<Rightarrow> string \<Rightarrow> bool" where
  "underscores_ok prev [] = (prev \<noteq> CHR ''_'')"
| "underscores_ok prev (c # cs) =
     ((if c = CHR ''_'' then isdigit prev
       else if prev = CHR ''_'' then isdigit c else True)
      \<and> underscores_ok c cs)"

definition remove_underscores :: "string \<Rightarrow> string" where
  "remove_underscores s = filter (\<lambda>c. c \<noteq> CHR ''_'') s"

definition is_sign :: "char \<Rightarrow> bool" where
  "is_sign c = (c = CHR ''+'' \<or> c = CHR ''-'')"

fun drop_sign :: "string \<Rightarrow> string" where
  "drop_sign [] = []"
| "drop_sign (c # cs) = (if is_sign c then cs else c # cs)"

definition is_inf_or_nan :: "string \<Rightarrow> bool" where
  "is_inf_or_nan s = (lower (drop_sign s) \<in> set [''inf'', ''infinity'', ''nan''])"

definition exponent_ok :: "string \<Rightarrow> bool" where
  "exponent_ok r =
     (case r of
        [] \<Rightarrow> True
      | e # r' \<Rightarrow> (e = CHR ''e'' \<or> e = CHR ''E'') \<and>
                 (let d = drop_sign r' in d \<noteq> [] \<and> list_all isdigit d))"

definition is_decimal :: "string \<Rightarrow> bool" where
  "is_decimal s =
     (let t = drop_sign s;
          ip = takeWhile isdigit t;
          r1 = dropWhile isdigit t
      in case r1 of
           [] \<Rightarrow> ip \<noteq> []
         | c # r2 \<Rightarrow>
             if c = CHR ''.''
             then (let fp = takeWhile isdigit r2; r3 = dropWhile isdigit r2
                   in (ip \<noteq> [] \<or> fp \<noteq> []) \<and> exponent_ok r3)
             else ip \<noteq> [] \<and> exponent_ok r1)"

definition is_float_literal :: "string \<Rightarrow> bool" where
  "is_float_literal s =
     (let t = strip s
      in (if CHR ''_'' \<in> set t then underscores_ok (CHR 0x00) t else True) \<and>
         (let u = remove_underscores t in is_decimal u \<or> is_inf_or_nan u))"

text \<open>
  \<^verbatim>\<open>float(V)\<close> returns for every float and boolean, for an integer that rounds to a
  finite double, and for a string that is a float literal; it raises on \<^verbatim>\<open>None\<close>.
\<close>

fun py_float_ok :: "'f pyval \<Rightarrow> bool" where
  "py_float_ok (PStr s) = is_float_literal s"
| "py_float_ok (PFloat f) = True"
| "py_float_ok (PInt i) = (\<bar>i\<bar> < 2 ^ 1024 - 2 ^ 970)"
| "py_float_ok (PBool b) = True"
| "py_float_ok PNone = False"

subsection \<open>\<^verbatim>\<open>sub in V\<close>\<close>

fun startswith :: "string \<Rightarrow> string \<Rightarrow> bool" where
  "startswith s [] = True"
| "startswith [] (p # ps) = False"
| "startswith (c # cs) (p # ps) = (c = p \<and> startswith cs ps)"

fun str_contains :: "string \<Rightarrow> string \<Rightarrow> bool" where
  "str_contains [] sub = (sub = [])"
| "str_contains (c # cs) sub = (startswith (c # cs) sub \<or> str_contains cs sub)"

text \<open>The membership test works on a string and raises \<^verbatim>\<open>TypeError\<close> on any other scalar.\<close>

fun py_contains :: "string \<Rightarrow> 'f pyval \<Rightarrow> error + bool" where
  "py_contains sub (PStr s) = Inr (str_contains s sub)"
| "py_contains sub (PFloat f) = Inl TypeError"
| "py_contains sub (PInt i) = Inl TypeError"
| "py_contains sub (PBool b) = Inl TypeError"
| "py_contains sub PNone = Inl TypeError"

section \<open>Tables and dictionaries\<close>

text \<open>
  A table is the list of its columns in order; a column has a name, the label of its
  native storage type and its values by row. Column labels are looked up from the left,
  as \<^verbatim>\<open>pd_tab[column]\<close> does on a table whose labels are distinct.
\<close>

record 'f series =
  sname :: string
  sdtype :: string
  svalues :: "'f pyval list"

type_synonym 'f dataframe = "'f series list"

definition columns :: "'f dataframe \<Rightarrow> string list" where
  "columns tab = map sname tab"

definition df_get :: "'f dataframe \<Rightarrow> string \<Rightarrow> error + 'f series" where
  "df_get tab column =
     (case find (\<lambda>s. sname s = column) tab of None \<Rightarrow> Inl KeyError | Some s \<Rightarrow> Inr s)"

text \<open>
  \<^verbatim>\<open>Series.unique()\<close>: the distinct values in order of first appearance. Two scalars
  are the same value when they are equal as values of the model, so all NaN are one
  value; a column that mixes scalars Python holds equal across types (\<^verbatim>\<open>1\<close>,
  \<^verbatim>\<open>1.0\<close>, \<^verbatim>\<open>True\<close>) is not covered.
\<close>

fun unique :: "'a list \<Rightarrow> 'a list" where
  "unique [] = []"
| "unique (x # xs) = x # unique (filter (\<lambda>y. y \<noteq> x) xs)"

text \<open>
  A Python dictionary keeps its keys in insertion order: an association list with
  assignment in place.
\<close>

type_synonym ('k, 'v) dict = "('k \<times> 'v) list"

fun dict_set :: "'k \<Rightarrow> 'v \<Rightarrow> ('k, 'v) dict \<Rightarrow> ('k, 'v) dict" where
  "dict_set k v [] = [(k, v)]"
| "dict_set k v ((k', v') # d) = (if k' = k then (k, v) # d else (k', v') # dict_set k v d)"

text \<open>\<^verbatim>\<open>d[k].append(x)\<close>, which raises \<^verbatim>\<open>KeyError\<close> when \<open>k\<close> is no key of \<open>d\<close>.\<close>

definition list_append_at :: "'k \<Rightarrow> 'a \<Rightarrow> ('k, 'a list) dict \<Rightarrow> error + ('k, 'a list) dict" where
  "list_append_at k x d =
     (case map_of d k of None \<Rightarrow> Inl KeyError | Some xs \<Rightarrow> Inr (dict_set k (xs @ [x]) d))"

text \<open>\<^verbatim>\<open>d.setdefault(k, []).append(x)\<close>\<close>

definition setdefault_append :: "'k \<Rightarrow> 'a \<Rightarrow> ('k, 'a list) dict \<Rightarrow> ('k, 'a list) dict" where
  "setdefault_append k x d =
     (case map_of d k of None \<Rightarrow> dict_set k [x] d | Some xs \<Rightarrow> dict_set k (xs @ [x]) d)"

section \<open>The scanner: \<^verbatim>\<open>set_column_dtypes\<close> and \<^verbatim>\<open>get_dtypes_and_unks\<close>\<close>

text \<open>
  The source keeps four facts about a column in the list \<^verbatim>\<open>float_to_string\<close>:
  \<^verbatim>\<open>[0]\<close> counts the values printing as \<^verbatim>\<open>nan\<close>, \<^verbatim>\<open>[1]\<close> the values that convert
  to float, \<^verbatim>\<open>[2]\<close> those that do not, and \<^verbatim>\<open>[3]\<close> collects the latter.
\<close>

record 'f float_to_string =
  fts0 :: nat
  fts1 :: nat
  fts2 :: nat
  fts3 :: "'f pyval list"

definition set_column_dtypes ::
  "(string, string list) dict \<Rightarrow> string \<Rightarrow> 'f float_to_string \<Rightarrow> error + (string, string list) dict" where
  "set_column_dtypes dtypes column float_to_string =
     (if \<not> (fts2 float_to_string \<noteq> 0) then list_append_at column ''float64'' dtypes
      else if fts2 float_to_string \<noteq> 0 then
        (if fts1 float_to_string \<noteq> 0 \<or> fts0 float_to_string \<noteq> 0
         then list_append_at column ''check'' dtypes
         else list_append_at column ''object'' dtypes)
      else Inr dtypes)"

text \<open>
  The identifier columns: the caller's list when it is given and not empty, the two
  default names otherwise.
\<close>

definition sampleIDs_of :: "string list option \<Rightarrow> string list" where
  "sampleIDs_of sampleID_cols =
     (case sampleID_cols of
        None \<Rightarrow> [''#SampleID'', ''sample_name'']
      | Some [] \<Rightarrow> [''#SampleID'', ''sample_name'']
      | Some (c # cs) \<Rightarrow> c # cs)"

text \<open>The lexical test of line 101 on the lowercase form \<open>v\<close>.\<close>

definition is_candidate :: "string \<Rightarrow> bool" where
  "is_candidate v =
     (length v < 20 \<and> CHR ''/'' \<notin> set v \<and> CHR ''-'' \<notin> set v \<and> length (filter isdigit v) = 0)"

type_synonym 'f scan_state =
  "'f float_to_string \<times> (string, string list) dict \<times> 'f pyval set"

text \<open>
  The body of the loop over the distinct values of one column. The pattern
  \<^verbatim>\<open>regex_unk\<close> is the caller's: a predicate on the lowercase form.
\<close>

definition scan_value ::
  "'f float_ops \<Rightarrow> (string \<Rightarrow> bool) \<Rightarrow> string \<Rightarrow> 'f pyval \<Rightarrow> 'f scan_state \<Rightarrow> error + 'f scan_state" where
  "scan_value fo regex_unk column V st =
     (case st of (float_to_string, potential_unks, nan_diversity) \<Rightarrow>
        let v = lower (py_str fo V) in
        (case (if regex_unk v
              then (case py_contains '':Unspecified'' V of
                      Inl e \<Rightarrow> Inl e
                    | Inr b \<Rightarrow> Inr (if \<not> b then insert V nan_diversity else nan_diversity))
              else Inr nan_diversity) of
          Inl e \<Rightarrow> Inl e
        | Inr nan_diversity' \<Rightarrow>
            if py_str fo V = ''nan''
            then Inr (float_to_string\<lparr>fts0 := fts0 float_to_string + 1\<rparr>,
                      potential_unks, nan_diversity')
            else if py_float_ok V
            then Inr (float_to_string\<lparr>fts1 := fts1 float_to_string + 1\<rparr>,
                      potential_unks, nan_diversity')
            else Inr (float_to_string\<lparr>fts2 := fts2 float_to_string + 1,
                                       fts3 := fts3 float_to_string @ [V]\<rparr>,
                      (if is_candidate v then setdefault_append v column potential_unks
                       else potential_unks),
                      nan_diversity')))"

fun scan_values ::
  "'f float_ops \<Rightarrow> (string \<Rightarrow> bool) \<Rightarrow> string \<Rightarrow> 'f pyval list \<Rightarrow> 'f scan_state \<Rightarrow> error + 'f scan_state" where
  "scan_values fo regex_unk column [] st = Inr st"
| "scan_values fo regex_unk column (V # Vs) st =
     (case scan_value fo regex_unk column V st of
        Inl e \<Rightarrow> Inl e
      | Inr st' \<Rightarrow> scan_values fo regex_unk column Vs st')"

definition fts_init :: "'f float_to_string" where
  "fts_init = \<lparr>fts0 = 0, fts1 = 0, fts2 = 0, fts3 = []\<rparr>"

type_synonym 'f scan_out =
  "(string, string list) dict \<times> (string, string list) dict \<times> 'f pyval set"

text \<open>The body of the loop over the columns.\<close>

definition scan_column ::
  "'f float_ops \<Rightarrow> 'f dataframe \<Rightarrow> (string \<Rightarrow> bool) \<Rightarrow> string list \<Rightarrow> string \<Rightarrow> 'f scan_out \<Rightarrow> error + 'f scan_out" where
  "scan_column fo pd_tab regex_unk sampleIDs column out =
     (case out of (dtypes, potential_unks, nan_diversity) \<Rightarrow>
        (case df_get pd_tab column of
          Inl e \<Rightarrow> Inl e
        | Inr ser \<Rightarrow>
            let native_dtype = sdtype ser;
                dtypes1 = dict_set column [native_dtype] dtypes
            in if column \<in> set sampleIDs
               then (case list_append_at column ''object'' dtypes1 of
                       Inl e \<Rightarrow> Inl e
                     | Inr dtypes2 \<Rightarrow> Inr (dtypes2, potential_unks, nan_diversity))
               else (case scan_values fo regex_unk column (unique (svalues ser))
                            (fts_init, potential_unks, nan_diversity) of
                       Inl e \<Rightarrow> Inl e
                     | Inr (float_to_string, potential_unks', nan_diversity') \<Rightarrow>
                         (case set_column_dtypes dtypes1 column float_to_string of
                            Inl e \<Rightarrow> Inl e
                          | Inr dtypes2 \<Rightarrow> Inr (dtypes2, potential_unks', nan_diversity')))))"

fun scan_columns ::
  "'f float_ops \<Rightarrow> 'f dataframe \<Rightarrow> (string \<Rightarrow> bool) \<Rightarrow> string list \<Rightarrow> string list \<Rightarrow> 'f scan_out \<Rightarrow> error + 'f scan_out" where
  "scan_columns fo pd_tab regex_unk sampleIDs [] out = Inr out"
| "scan_columns fo pd_tab regex_unk sampleIDs (column # cols) out =
     (case scan_column fo pd_tab regex_unk sampleIDs column out of
        Inl e \<Rightarrow> Inl e
      | Inr out' \<Rightarrow> scan_columns fo pd_tab regex_unk sampleIDs cols out')"

definition get_dtypes_and_unks ::
  "'f float_ops \<Rightarrow> 'f dataframe \<Rightarrow> (string \<Rightarrow> bool) \<Rightarrow> string list option \<Rightarrow> error + 'f scan_out" where
  "get_dtypes_and_unks fo pd_tab regex_unk sampleID_cols =
     scan_columns fo pd_tab regex_unk (sampleIDs_of sampleID_cols) (columns pd_tab) ([], [], {})"

section \<open>The confirmer: \<^verbatim>\<open>get_certainly_NaNs\<close>\<close>

text \<open>
  The binary table has one row for each column of the metadata and one column for each
  candidate factor, the factors in sorted order. The keys of a dictionary are distinct,
  so sorting its items is sorting them by key.
\<close>

record binary_frame =
  bf_index :: "string list"
  bf_columns :: "string list"
  bf_rows :: "nat list list"

definition get_certainly_NaNs ::
  "(string, string list) dict \<Rightarrow> 'f dataframe \<Rightarrow> int \<Rightarrow> binary_frame" where
  "get_certainly_NaNs potential_unks md_pd thresh =
     (let items = sort_key fst potential_unks;
          potential_unks_pd_L =
            map (\<lambda>col. map (\<lambda>(unk, unk_samples). if col \<in> set unk_samples then 1 else 0) items)
                (columns md_pd);
          labels = sort (map fst potential_unks);
          sumCols = map (\<lambda>j. sum_list (map (\<lambda>row. row ! j) potential_unks_pd_L)) [0..<length labels];
          keep = filter (\<lambda>j. int (sumCols ! j) > thresh) [0..<length labels]
      in \<lparr>bf_index = columns md_pd,
          bf_columns = map (\<lambda>j. labels ! j) keep,
          bf_rows = map (\<lambda>row. map (\<lambda>j. row ! j) keep) potential_unks_pd_L\<rparr>)"

section \<open>The finalizer: \<^verbatim>\<open>get_dtypes_final\<close>\<close>

text \<open>
  The source reads a dictionary \<^verbatim>\<open>to_nan\<close> that the file does not define: it is the
  caller's mapping from a confirmed factor to the missing marker, and a parameter here.
  \<^verbatim>\<open>md_pd.replace({col: to_nan})\<close> exchanges, in the column \<open>col\<close> only, every
  string that is a key of the mapping for the value the mapping gives.

  After the exchange pandas infers the storage of the column anew: a column of type
  \<^verbatim>\<open>object\<close> that is left with numbers only comes back as \<^verbatim>\<open>float64\<close>, with its
  integers turned into floats. What is inferred is the library's business and differs
  between its versions; like the operations on floats it is a parameter, \<open>reinfer\<close>,
  which takes the mapping, the column before the exchange and the values after it, and
  gives the storage type and the values of the column that \<^verbatim>\<open>replace\<close> returns.
\<close>

type_synonym 'f reinfer =
  "(string, 'f pyval) dict \<Rightarrow> 'f series \<Rightarrow> 'f pyval list \<Rightarrow> string \<times> 'f pyval list"

definition replace_value :: "(string, 'f pyval) dict \<Rightarrow> 'f pyval \<Rightarrow> 'f pyval" where
  "replace_value to_nan V =
     (case V of
        PStr s \<Rightarrow> (case map_of to_nan s of None \<Rightarrow> V | Some W \<Rightarrow> W)
      | _ \<Rightarrow> V)"

definition series_replace :: "'f reinfer \<Rightarrow> (string, 'f pyval) dict \<Rightarrow> 'f series \<Rightarrow> 'f series" where
  "series_replace reinfer to_nan ser =
     (case reinfer to_nan ser (map (replace_value to_nan) (svalues ser)) of
        (t, Vs) \<Rightarrow> ser\<lparr>sdtype := t, svalues := Vs\<rparr>)"

definition df_replace ::
  "'f reinfer \<Rightarrow> 'f dataframe \<Rightarrow> string \<Rightarrow> (string, 'f pyval) dict \<Rightarrow> 'f dataframe" where
  "df_replace reinfer md_pd col to_nan =
     map (\<lambda>ser. if sname ser = col then series_replace reinfer to_nan ser else ser) md_pd"

text \<open>
  The \<^verbatim>\<open>for ... else\<close> loop over the distinct values: \<open>False\<close> when it leaves through
  \<^verbatim>\<open>break\<close> at the first value that does not convert, \<open>True\<close> when it runs to its end.
\<close>

fun rescan :: "'f float_ops \<Rightarrow> 'f pyval list \<Rightarrow> bool" where
  "rescan fo [] = True"
| "rescan fo (v # vs) =
     (if py_str fo v = ''nan'' then rescan fo vs
      else if py_float_ok v then rescan fo vs
      else False)"

type_synonym 'f final_state =
  "(string, string list) dict \<times> (string, string) dict \<times> 'f dataframe"

text \<open>
  The body of the loop over the items of \<^verbatim>\<open>dtypes\<close>. The state is the dictionary
  \<^verbatim>\<open>dtypes\<close>, which the source extends in place, \<^verbatim>\<open>dtypes_final\<close> and the table.
\<close>

definition final_step ::
  "'f float_ops \<Rightarrow> 'f reinfer \<Rightarrow> (string, 'f pyval) dict \<Rightarrow> string list \<Rightarrow> string \<times> string list \<Rightarrow> 'f final_state \<Rightarrow> error + 'f final_state" where
  "final_step fo reinfer to_nan sampleIDs item st =
     (case (item, st) of ((col, checks), (dtypes, dtypes_final, md_pd)) \<Rightarrow>
        if col \<in> set sampleIDs
        then (case list_append_at col ''object'' dtypes of
                Inl e \<Rightarrow> Inl e
              | Inr dtypes' \<Rightarrow> Inr (dtypes', dict_set col ''O'' dtypes_final, md_pd))
        else if checks = [] then Inl IndexError
        else if last checks \<in> set [''check'', ''object'']
        then (let md_pd' = df_replace reinfer md_pd col to_nan
              in case df_get md_pd' col of
                   Inl e \<Rightarrow> Inl e
                 | Inr ser \<Rightarrow>
                     if rescan fo (unique (svalues ser))
                     then (case list_append_at col ''float64'' dtypes of
                             Inl e \<Rightarrow> Inl e
                           | Inr dtypes' \<Rightarrow> Inr (dtypes', dict_set col ''Q'' dtypes_final, md_pd'))
                     else (case list_append_at col ''object'' dtypes of
                             Inl e \<Rightarrow> Inl e
                           | Inr dtypes' \<Rightarrow> Inr (dtypes', dict_set col ''O'' dtypes_final, md_pd')))
        else (case list_append_at col (last checks) dtypes of
                Inl e \<Rightarrow> Inl e
              | Inr dtypes' \<Rightarrow> Inr (dtypes', dict_set col ''Q'' dtypes_final, md_pd)))"

fun final_loop ::
  "'f float_ops \<Rightarrow> 'f reinfer \<Rightarrow> (string, 'f pyval) dict \<Rightarrow> string list \<Rightarrow> (string \<times> string list) list \<Rightarrow> 'f final_state \<Rightarrow> error + 'f final_state" where
  "final_loop fo reinfer to_nan sampleIDs [] st = Inr st"
| "final_loop fo reinfer to_nan sampleIDs (item # items) st =
     (case final_step fo reinfer to_nan sampleIDs item st of
        Inl e \<Rightarrow> Inl e
      | Inr st' \<Rightarrow> final_loop fo reinfer to_nan sampleIDs items st')"

definition get_dtypes_final ::
  "'f float_ops \<Rightarrow> 'f reinfer \<Rightarrow> (string, 'f pyval) dict \<Rightarrow> (string, string list) dict \<Rightarrow> 'f dataframe \<Rightarrow> string list option \<Rightarrow> error + 'f final_state" where
  "get_dtypes_final fo reinfer to_nan dtypes md_pd sampleID_cols =
     final_loop fo reinfer to_nan (sampleIDs_of sampleID_cols) dtypes (dtypes, [], md_pd)"

section \<open>The rewriter: \<^verbatim>\<open>rectify_dtypes_in_md\<close>\<close>

text \<open>
  \<^verbatim>\<open>astype('float64')\<close> converts value by value and raises at the first value that has
  no float; \<^verbatim>\<open>astype('str')\<close> takes the \<^verbatim>\<open>str\<close> of every value.
\<close>

fun astype_float64_value :: "'f float_ops \<Rightarrow> 'f pyval \<Rightarrow> error + 'f pyval" where
  "astype_float64_value fo (PStr s) =
     (if is_float_literal s then Inr (PFloat (float_strtod fo s)) else Inl ValueError)"
| "astype_float64_value fo (PFloat f) = Inr (PFloat f)"
| "astype_float64_value fo (PInt i) =
     (if \<bar>i\<bar> < 2 ^ 1024 - 2 ^ 970 then Inr (PFloat (float_of_int fo i)) else Inl OverflowError)"
| "astype_float64_value fo (PBool b) = Inr (PFloat (float_of_int fo (if b then 1 else 0)))"
| "astype_float64_value fo PNone = Inr (PFloat (float_nan fo))"

fun astype_float64_values :: "'f float_ops \<Rightarrow> 'f pyval list \<Rightarrow> error + 'f pyval list" where
  "astype_float64_values fo [] = Inr []"
| "astype_float64_values fo (V # Vs) =
     (case astype_float64_value fo V of
        Inl e \<Rightarrow> Inl e
      | Inr W \<Rightarrow> (case astype_float64_values fo Vs of
                    Inl e \<Rightarrow> Inl e
                  | Inr Ws \<Rightarrow> Inr (W # Ws)))"

definition astype_float64 :: "'f float_ops \<Rightarrow> 'f series \<Rightarrow> error + 'f series" where
  "astype_float64 fo ser =
     (case astype_float64_values fo (svalues ser) of
        Inl e \<Rightarrow> Inl e
      | Inr Ws \<Rightarrow> Inr (ser\<lparr>sdtype := ''float64'', svalues := Ws\<rparr>))"

definition astype_str :: "'f float_ops \<Rightarrow> 'f series \<Rightarrow> 'f series" where
  "astype_str fo ser =
     ser\<lparr>sdtype := ''object'', svalues := map (\<lambda>V. PStr (py_str fo V)) (svalues ser)\<rparr>"

text \<open>
  \<^verbatim>\<open>md_pd[col] = ser\<close>: the column of that name takes the new content, and a name the
  table does not have yet becomes a new last column.
\<close>

fun df_set :: "'f dataframe \<Rightarrow> string \<Rightarrow> 'f series \<Rightarrow> 'f dataframe" where
  "df_set [] col ser = [ser\<lparr>sname := col\<rparr>]"
| "df_set (s # tab) col ser =
     (if sname s = col then ser\<lparr>sname := col\<rparr> # tab else s # df_set tab col ser)"

definition rectify_step ::
  "'f float_ops \<Rightarrow> string \<times> string \<Rightarrow> 'f dataframe \<Rightarrow> error + 'f dataframe" where
  "rectify_step fo item md_pd =
     (case item of (col, dtype) \<Rightarrow>
        if col \<in> set (columns md_pd)
        then (if dtype = ''Q''
              then (case df_get md_pd col of
                      Inl e \<Rightarrow> Inl e
                    | Inr ser \<Rightarrow> (case astype_float64 fo ser of
                                    Inl e \<Rightarrow> Inl e
                                  | Inr ser' \<Rightarrow> Inr (df_set md_pd col ser')))
              else (case df_get md_pd col of
                      Inl e \<Rightarrow> Inl e
                    | Inr ser \<Rightarrow> Inr (df_set md_pd col (astype_str fo ser))))
        else (case df_get md_pd col of
                Inl e \<Rightarrow> Inl e
              | Inr ser \<Rightarrow> Inr (df_set md_pd col (astype_str fo ser))))"

fun rectify_dtypes_in_md ::
  "'f float_ops \<Rightarrow> (string, string) dict \<Rightarrow> 'f dataframe \<Rightarrow> error + 'f dataframe" where
  "rectify_dtypes_in_md fo [] md_pd = Inr md_pd"
| "rectify_dtypes_in_md fo (item # dtypes_final) md_pd =
     (case rectify_step fo item md_pd of
        Inl e \<Rightarrow> Inl e
      | Inr md_pd' \<Rightarrow> rectify_dtypes_in_md fo dtypes_final md_pd')"

section \<open>Notions used to state the properties\<close>

text \<open>
  The classification as the specification words it, on the three counters
  (contains-missing, contains-float, contains-non-float).
\<close>

definition spec_classification :: "nat \<Rightarrow> nat \<Rightarrow> nat \<Rightarrow> string" where
  "spec_classification n_missing n_float n_nonfloat =
     (if n_nonfloat = 0 then ''float64''
      else if n_float \<noteq> 0 \<or> n_missing \<noteq> 0 then ''check''
      else ''object'')"

text \<open>The three kinds of value the scanner tells apart, counted over a list of values.\<close>

definition is_missing :: "'f float_ops \<Rightarrow> 'f pyval \<Rightarrow> bool" where
  "is_missing fo V = (py_str fo V = ''nan'')"

definition is_float :: "'f float_ops \<Rightarrow> 'f pyval \<Rightarrow> bool" where
  "is_float fo V = (py_str fo V \<noteq> ''nan'' \<and> py_float_ok V)"

definition is_nonfloat :: "'f float_ops \<Rightarrow> 'f pyval \<Rightarrow> bool" where
  "is_nonfloat fo V = (py_str fo V \<noteq> ''nan'' \<and> \<not> py_float_ok V)"

text \<open>The tag the specification gives a column with the distinct values \<open>Vs\<close>.\<close>

definition spec_tag :: "'f float_ops \<Rightarrow> 'f pyval list \<Rightarrow> string" where
  "spec_tag fo Vs =
     spec_classification (length (filter (is_missing fo) Vs))
                         (length (filter (is_float fo) Vs))
                         (length (filter (is_nonfloat fo) Vs))"

text \<open>The columns a dictionary of candidates lists under a factor.\<close>

definition unk_columns :: "(string, string list) dict \<Rightarrow> string \<Rightarrow> string set" where
  "unk_columns potential_unks v = (case map_of potential_unks v of None \<Rightarrow> {} | Some cs \<Rightarrow> set cs)"

text \<open>
  A value \<open>V\<close> registers the factor \<open>v\<close>: \<open>v\<close> is its lowercase form, it does not
  convert to float and \<open>v\<close> passes the lexical test. A column contributes \<open>v\<close> when it
  is no identifier column and one of its values registers \<open>v\<close>.
\<close>

definition registers :: "'f float_ops \<Rightarrow> string \<Rightarrow> 'f pyval \<Rightarrow> bool" where
  "registers fo v V = (lower (py_str fo V) = v \<and> \<not> py_float_ok V \<and> is_candidate v)"

definition contributes :: "'f float_ops \<Rightarrow> 'f dataframe \<Rightarrow> string list \<Rightarrow> string \<Rightarrow> string \<Rightarrow> bool" where
  "contributes fo tab ids v c =
     (c \<notin> set ids \<and> (\<exists>ser V. df_get tab c = Inr ser \<and> V \<in> set (svalues ser) \<and> registers fo v V))"

text \<open>
  A column is converted for the type letter \<open>dtype\<close>: all floats under the storage type
  \<^verbatim>\<open>float64\<close> for \<^verbatim>\<open>Q\<close>, all strings under \<^verbatim>\<open>object\<close> for any other letter.
\<close>

fun is_PFloat :: "'f pyval \<Rightarrow> bool" where
  "is_PFloat (PFloat f) = True"
| "is_PFloat V = False"

fun is_PStr :: "'f pyval \<Rightarrow> bool" where
  "is_PStr (PStr s) = True"
| "is_PStr V = False"

definition converted :: "string \<Rightarrow> 'f series \<Rightarrow> bool" where
  "converted dtype ser =
     (if dtype = ''Q'' then sdtype ser = ''float64'' \<and> list_all is_PFloat (svalues ser)
      else sdtype ser = ''object'' \<and> list_all is_PStr (svalues ser))"


text \<open>
  Two tables with the same column names and storage types that agree on every column
  outside the identifier columns.
\<close>

definition same_but_ids :: "string list \<Rightarrow> 'f dataframe \<Rightarrow> 'f dataframe \<Rightarrow> bool" where
  "same_but_ids ids tab tab' =
     list_all2 (\<lambda>s s'. sname s = sname s' \<and> sdtype s = sdtype s' \<and> (sname s \<in> set ids \<or> s = s'))
       tab tab'"

text \<open>
  Floats written by their printed form, for worked examples: the float of a literal is
  its lowercase text without the white space around it.
\<close>

definition ex_ops :: "string float_ops" where
  "ex_ops = \<lparr>float_repr = (\<lambda>s. s),
             float_strtod = (\<lambda>s. lower (strip s)),
             float_of_int = (\<lambda>i. str_of_int i @ ''.0''),
             float_nan = ''nan''\<rparr>"

text \<open>
  The storage inferred after an exchange, for worked examples whose columns hold strings
  and floats: a column left with floats only is stored as \<^verbatim>\<open>float64\<close>, a column that
  still holds a string stays as it is.
\<close>

definition ex_reinfer :: "string reinfer" where
  "ex_reinfer to_nan ser Vs =
     (if Vs \<noteq> [] \<and> list_all is_PFloat Vs then (''float64'', Vs) else (sdtype ser, Vs))"

section \<open>Dictionaries and table lookup\<close>

lemma map_of_dict_set: "map_of (dict_set k v d) = (map_of d)(k \<mapsto> v)"
  by (induction d) (auto)

lemma map_of_list_append_at:
  "list_append_at k x d = Inr d' \<Longrightarrow> \<exists>xs. map_of d k = Some xs \<and> map_of d' = (map_of d)(k \<mapsto> xs @ [x])"
  by (auto simp: list_append_at_def map_of_dict_set split: option.splits)

lemma set_column_dtypes_spec:
  "set_column_dtypes dtypes column fts =
     list_append_at column (spec_classification (fts0 fts) (fts1 fts) (fts2 fts)) dtypes"
  by (simp add: set_column_dtypes_def spec_classification_def)

section \<open>The scanner classifies by its counters\<close>

lemma scan_value_fts:
  assumes "scan_value fo re c V (fts, pu, nd) = Inr (fts', pu', nd')"
  shows "fts0 fts' = fts0 fts + (if is_missing fo V then 1 else 0)"
    and "fts1 fts' = fts1 fts + (if is_float fo V then 1 else 0)"
    and "fts2 fts' = fts2 fts + (if is_nonfloat fo V then 1 else 0)"
    and "fts3 fts' = fts3 fts @ (if is_nonfloat fo V then [V] else [])"
  using assms
  by (auto simp: scan_value_def Let_def is_missing_def is_float_def is_nonfloat_def
           split: if_splits sum.splits)

lemma scan_values_fts:
  "scan_values fo re c Vs (fts, pu, nd) = Inr (fts', pu', nd') \<Longrightarrow>
     fts0 fts' = fts0 fts + length (filter (is_missing fo) Vs) \<and>
     fts1 fts' = fts1 fts + length (filter (is_float fo) Vs) \<and>
     fts2 fts' = fts2 fts + length (filter (is_nonfloat fo) Vs) \<and>
     fts3 fts' = fts3 fts @ filter (is_nonfloat fo) Vs"
proof (induction Vs arbitrary: fts pu nd)
  case Nil
  then show ?case by simp
next
  case (Cons V Vs)
  from Cons.prems obtain fts1' pu1 nd1 where
    step: "scan_value fo re c V (fts, pu, nd) = Inr (fts1', pu1, nd1)" and
    rest: "scan_values fo re c Vs (fts1', pu1, nd1) = Inr (fts', pu', nd')"
    by (auto split: sum.splits)
  from Cons.IH[OF rest] scan_value_fts[OF step] show ?case by simp
qed

lemma scan_column_dtypes:
  assumes "scan_column fo tab re ids column (dt, pu, nd) = Inr (dt', pu', nd')"
  shows "\<exists>ser. df_get tab column = Inr ser \<and>
           map_of dt' = (map_of dt)(column \<mapsto>
             [sdtype ser,
              if column \<in> set ids then ''object''
              else spec_tag fo (unique (svalues ser))])"
proof -
  from assms obtain ser where g: "df_get tab column = Inr ser"
    by (auto simp: scan_column_def split: sum.splits)
  show ?thesis
  proof (cases "column \<in> set ids")
    case True
    with assms g have "list_append_at column ''object'' (dict_set column [sdtype ser] dt) = Inr dt'"
      by (auto simp: scan_column_def Let_def split: sum.splits)
    from map_of_list_append_at[OF this] g True show ?thesis
      by (auto simp: map_of_dict_set)
  next
    case False
    with assms g obtain fts where
      sv: "scan_values fo re column (unique (svalues ser)) (fts_init, pu, nd) = Inr (fts, pu', nd')" and
      sc: "set_column_dtypes (dict_set column [sdtype ser] dt) column fts = Inr dt'"
      by (auto simp: scan_column_def Let_def split: sum.splits)
    from scan_values_fts[OF sv] have
      "spec_classification (fts0 fts) (fts1 fts) (fts2 fts) =
       spec_tag fo (unique (svalues ser))"
      by (simp add: fts_init_def spec_tag_def)
    with sc map_of_list_append_at[of column _ "dict_set column [sdtype ser] dt" dt'] g False
    show ?thesis
      by (auto simp: map_of_dict_set set_column_dtypes_spec)
  qed
qed


lemma scan_columns_dtypes_other:
  "scan_columns fo tab re ids cols (dt, pu, nd) = Inr (dt', pu', nd') \<Longrightarrow> c \<notin> set cols \<Longrightarrow>
   map_of dt' c = map_of dt c"
proof (induction cols arbitrary: dt pu nd)
  case Nil
  then show ?case by simp
next
  case (Cons col cols)
  from Cons.prems(1) obtain dt1 pu1 nd1 where
    step: "scan_column fo tab re ids col (dt, pu, nd) = Inr (dt1, pu1, nd1)" and
    rest: "scan_columns fo tab re ids cols (dt1, pu1, nd1) = Inr (dt', pu', nd')"
    by (auto split: sum.splits)
  from Cons.prems(2) have "c \<noteq> col" "c \<notin> set cols" by auto
  with Cons.IH[OF rest] scan_column_dtypes[OF step] show ?case by auto
qed

lemma scan_columns_dtypes_in:
  "scan_columns fo tab re ids cols (dt, pu, nd) = Inr (dt', pu', nd') \<Longrightarrow> c \<in> set cols \<Longrightarrow>
   df_get tab c = Inr ser \<Longrightarrow>
   map_of dt' c = Some [sdtype ser, if c \<in> set ids then ''object'' else spec_tag fo (unique (svalues ser))]"
proof (induction cols arbitrary: dt pu nd)
  case Nil
  then show ?case by simp
next
  case (Cons col cols)
  from Cons.prems(1) obtain dt1 pu1 nd1 where
    step: "scan_column fo tab re ids col (dt, pu, nd) = Inr (dt1, pu1, nd1)" and
    rest: "scan_columns fo tab re ids cols (dt1, pu1, nd1) = Inr (dt', pu', nd')"
    by (auto split: sum.splits)
  show ?case
  proof (cases "c \<in> set cols")
    case True
    from Cons.IH[OF rest True Cons.prems(3)] show ?thesis .
  next
    case False
    with Cons.prems(2) have "c = col" by simp
    with scan_column_dtypes[OF step] Cons.prems(3)
         scan_columns_dtypes_other[OF rest False]
    show ?thesis by auto
  qed
qed

lemma df_get_in_columns: "df_get tab c = Inr ser \<Longrightarrow> c \<in> set (columns tab) \<and> sname ser = c \<and> ser \<in> set tab"
  by (auto simp: df_get_def columns_def find_Some_iff split: option.splits)

text \<open>
  C1. For a column that is no identifier column, the tag the scanner appends after the
  native type is \<^verbatim>\<open>float64\<close> when no distinct value is a non-float, \<^verbatim>\<open>check\<close>
  when some distinct value is a non-float and some value is a float or prints as
  \<^verbatim>\<open>nan\<close>, and \<^verbatim>\<open>object\<close> otherwise. The three counters of the loop are the numbers
  of distinct values of the three kinds (lemma \<open>scan_values_fts\<close>).
\<close>

theorem scanner_classification:
  assumes "get_dtypes_and_unks fo pd_tab regex_unk sampleID_cols = Inr (dtypes, potential_unks, nan_diversity)"
      and "df_get pd_tab column = Inr ser"
      and "column \<notin> set (sampleIDs_of sampleID_cols)"
    shows "map_of dtypes column = Some [sdtype ser, spec_tag fo (unique (svalues ser))]"
  using scan_columns_dtypes_in[OF assms(1)[unfolded get_dtypes_and_unks_def] _ assms(2)]
        df_get_in_columns[OF assms(2)] assms(3)
  by simp

theorem scanner_classification_witness:
  "get_dtypes_and_unks ex_ops
     [\<lparr>sname = ''age'', sdtype = ''object'', svalues = [PStr ''25'', PStr ''unk'', PFloat ''nan'']\<rparr>]
     (\<lambda>v. False) None
     = Inr ([(''age'', [''object'', ''check''])], [(''unk'', [''age''])], {})
   \<and> df_get [\<lparr>sname = ''age'', sdtype = ''object'', svalues = [PStr ''25'', PStr ''unk'', PFloat ''nan'']\<rparr>] ''age''
     = Inr \<lparr>sname = ''age'', sdtype = ''object'', svalues = [PStr ''25'', PStr ''unk'', PFloat ''nan'']\<rparr>
   \<and> ''age'' \<notin> set (sampleIDs_of None)
   \<and> map_of [(''age'', [''object'', ''check''])] ''age''
     = Some [sdtype \<lparr>sname = ''age'', sdtype = ''object'', svalues = [PStr ''25'', PStr ''unk'', PFloat ''nan'']\<rparr>,
             spec_tag ex_ops (unique (svalues \<lparr>sname = ''age'', sdtype = ''object'',
                                               svalues = [PStr ''25'', PStr ''unk'', PFloat ''nan'']\<rparr>))]"
proof -
  have h1: "get_dtypes_and_unks ex_ops
     [\<lparr>sname = ''age'', sdtype = ''object'', svalues = [PStr ''25'', PStr ''unk'', PFloat ''nan'']\<rparr>]
     (\<lambda>v. False) None
     = Inr ([(''age'', [''object'', ''check''])], [(''unk'', [''age''])], {})"
    by code_simp
  have h2: "df_get [\<lparr>sname = ''age'', sdtype = ''object'', svalues = [PStr ''25'', PStr ''unk'', PFloat ''nan'']\<rparr>] ''age''
     = Inr \<lparr>sname = ''age'', sdtype = ''object'', svalues = [PStr ''25'', PStr ''unk'', PFloat ''nan'']\<rparr>"
    by code_simp
  have h3: "''age'' \<notin> set (sampleIDs_of None)"
    by code_simp
  from scanner_classification[OF h1 h2 h3] h1 h2 h3 show ?thesis
    by (intro conjI)
qed

section \<open>The counter of missing values and the classification\<close>

text \<open>
  C6, as the specification states it: the preliminary tag would be the same whether the
  contains-missing counter is zero or not. It is not: with one non-float and no float,
  the counter decides between \<^verbatim>\<open>object\<close> and \<^verbatim>\<open>check\<close>, both in
  \<^verbatim>\<open>set_column_dtypes\<close> and for two columns that differ in a NaN only.
\<close>

theorem missing_counter_counterexample:
  "set_column_dtypes [(''c'', [''object''])] ''c''
     \<lparr>fts0 = 0, fts1 = 0, fts2 = 1, fts3 = [PStr ''x'' :: string pyval]\<rparr>
     = Inr [(''c'', [''object'', ''object''])]
   \<and> set_column_dtypes [(''c'', [''object''])] ''c''
     \<lparr>fts0 = 1, fts1 = 0, fts2 = 1, fts3 = [PStr ''x'' :: string pyval]\<rparr>
     = Inr [(''c'', [''object'', ''check''])]
   \<and> get_dtypes_and_unks ex_ops
       [\<lparr>sname = ''c'', sdtype = ''object'', svalues = [PStr ''x'']\<rparr>] (\<lambda>v. False) None
     = Inr ([(''c'', [''object'', ''object''])], [(''x'', [''c''])], {})
   \<and> get_dtypes_and_unks ex_ops
       [\<lparr>sname = ''c'', sdtype = ''object'', svalues = [PStr ''x'', PFloat ''nan'']\<rparr>] (\<lambda>v. False) None
     = Inr ([(''c'', [''object'', ''check''])], [(''x'', [''c''])], {})"
  by code_simp

text \<open>
  C6, amended. The contains-missing counter has no effect on the tag when the
  contains-non-float counter is zero or the contains-float counter is not; when there are
  non-floats and no float, the tag is \<^verbatim>\<open>check\<close> for a counter that is not zero and
  \<^verbatim>\<open>object\<close> for a counter that is zero.
\<close>

theorem missing_counter_effect:
  assumes "fts1 a = fts1 b" and "fts2 a = fts2 b"
  shows "(fts2 a = 0 \<or> fts1 a \<noteq> 0 \<longrightarrow>
            set_column_dtypes dtypes column a = set_column_dtypes dtypes column b)
       \<and> (fts2 a \<noteq> 0 \<and> fts1 a = 0 \<longrightarrow>
            set_column_dtypes dtypes column a =
              list_append_at column (if fts0 a \<noteq> 0 then ''check'' else ''object'') dtypes)"
  using assms by (auto simp: set_column_dtypes_def)

theorem missing_counter_effect_witness:
  "set_column_dtypes [(''c'', [''object''])] ''c''
     \<lparr>fts0 = 0, fts1 = 2, fts2 = 1, fts3 = [PStr ''x'' :: string pyval]\<rparr>
   = set_column_dtypes [(''c'', [''object''])] ''c''
     \<lparr>fts0 = 1, fts1 = 2, fts2 = 1, fts3 = [PStr ''x'']\<rparr>
   \<and> set_column_dtypes [(''c'', [''object''])] ''c''
     \<lparr>fts0 = 3, fts1 = 0, fts2 = 1, fts3 = [PStr ''x'' :: string pyval]\<rparr>
   = list_append_at ''c'' ''check'' [(''c'', [''object''])]"
  using missing_counter_effect
          [of "\<lparr>fts0 = 0, fts1 = 2, fts2 = 1, fts3 = [PStr ''x'' :: string pyval]\<rparr>"
              "\<lparr>fts0 = 1, fts1 = 2, fts2 = 1, fts3 = [PStr ''x'']\<rparr>"
              "[(''c'', [''object''])]" "''c''"]
        missing_counter_effect
          [of "\<lparr>fts0 = 3, fts1 = 0, fts2 = 1, fts3 = [PStr ''x'' :: string pyval]\<rparr>"
              "\<lparr>fts0 = 3, fts1 = 0, fts2 = 1, fts3 = [PStr ''x'']\<rparr>"
              "[(''c'', [''object''])]" "''c''"]
  by simp

section \<open>Which values become candidate factors\<close>

lemma digit_char_not_n: "k < 10 \<Longrightarrow> digit_char k \<noteq> CHR ''n''"
proof
  assume k: "k < 10" and e: "digit_char k = CHR ''n''"
  from e have "of_char (digit_char k) = (of_char (CHR ''n'') :: nat)" by simp
  with k show False by (simp add: digit_char_def)
qed

lemma str_of_nat_no_n: "CHR ''n'' \<notin> set (str_of_nat n)"
proof (induction n rule: str_of_nat.induct)
  case (1 n)
  show ?case
  proof (cases "n < 10")
    case True
    then show ?thesis using digit_char_not_n[of n] by (subst str_of_nat.simps) auto
  next
    case False
    with 1 digit_char_not_n[of "n mod 10"] show ?thesis
      by (subst str_of_nat.simps) auto
  qed
qed

lemma str_of_int_not_nan: "str_of_int i \<noteq> ''nan''"
proof
  assume "str_of_int i = ''nan''"
  then have "CHR ''n'' \<in> set (str_of_nat (nat (- i))) \<or> CHR ''n'' \<in> set (str_of_nat (nat i))"
    by (auto simp: str_of_int_def split: if_splits)
  with str_of_nat_no_n show False by blast
qed

lemma nan_is_float_literal: "is_float_literal ''nan''"
  by code_simp

lemma not_float_not_nan: "\<not> py_float_ok V \<Longrightarrow> py_str fo V \<noteq> ''nan''"
  using nan_is_float_literal str_of_int_not_nan
  by (cases V) auto


lemma set_unique: "set (unique xs) = set xs"
proof (induction xs rule: unique.induct)
  case 1
  then show ?case by simp
next
  case (2 x xs)
  then show ?case by auto
qed

lemma unk_columns_setdefault_append:
  "unk_columns (setdefault_append k x pu) v = (if v = k then insert x (unk_columns pu v) else unk_columns pu v)"
  by (auto simp: unk_columns_def setdefault_append_def map_of_dict_set split: option.splits)

lemma scan_value_unks:
  assumes "scan_value fo re c V (fts, pu, nd) = Inr (fts', pu', nd')"
  shows "pu' = (if \<not> py_float_ok V \<and> is_candidate (lower (py_str fo V))
                then setdefault_append (lower (py_str fo V)) c pu else pu)"
  using assms not_float_not_nan[of V fo]
  by (auto simp: scan_value_def Let_def split: if_splits sum.splits)

lemma scan_value_unk_columns:
  assumes "scan_value fo re c V (fts, pu, nd) = Inr (fts', pu', nd')"
  shows "unk_columns pu' v = unk_columns pu v \<union> (if registers fo v V then {c} else {})"
  unfolding scan_value_unks[OF assms]
  by (auto simp: unk_columns_setdefault_append registers_def)

lemma scan_values_unk_columns:
  "scan_values fo re c Vs (fts, pu, nd) = Inr (fts', pu', nd') \<Longrightarrow>
   unk_columns pu' v = unk_columns pu v \<union> (if \<exists>V \<in> set Vs. registers fo v V then {c} else {})"
proof (induction Vs arbitrary: fts pu nd)
  case Nil
  then show ?case by simp
next
  case (Cons V Vs)
  from Cons.prems obtain fts1' pu1 nd1 where
    step: "scan_value fo re c V (fts, pu, nd) = Inr (fts1', pu1, nd1)" and
    rest: "scan_values fo re c Vs (fts1', pu1, nd1) = Inr (fts', pu', nd')"
    by (auto split: sum.splits)
  from Cons.IH[OF rest] scan_value_unk_columns[OF step, of v] show ?case by auto
qed

lemma scan_column_unk_columns:
  assumes "scan_column fo tab re ids c (dt, pu, nd) = Inr (dt', pu', nd')"
  shows "unk_columns pu' v = unk_columns pu v \<union> (if contributes fo tab ids v c then {c} else {})"
proof -
  from assms obtain ser where g: "df_get tab c = Inr ser"
    by (auto simp: scan_column_def split: sum.splits)
  show ?thesis
  proof (cases "c \<in> set ids")
    case True
    with assms g have "pu' = pu"
      by (auto simp: scan_column_def Let_def split: sum.splits)
    with True show ?thesis by (simp add: contributes_def)
  next
    case False
    with assms g obtain fts where
      sv: "scan_values fo re c (unique (svalues ser)) (fts_init, pu, nd) = Inr (fts, pu', nd')"
      by (auto simp: scan_column_def Let_def split: sum.splits)
    from scan_values_unk_columns[OF sv, of v] g False show ?thesis
      by (auto simp: contributes_def set_unique)
  qed
qed

lemma scan_columns_unk_columns:
  "scan_columns fo tab re ids cols (dt, pu, nd) = Inr (dt', pu', nd') \<Longrightarrow>
   unk_columns pu' v = unk_columns pu v \<union> {c \<in> set cols. contributes fo tab ids v c}"
proof (induction cols arbitrary: dt pu nd)
  case Nil
  then show ?case by simp
next
  case (Cons col cols)
  from Cons.prems(1) obtain dt1 pu1 nd1 where
    step: "scan_column fo tab re ids col (dt, pu, nd) = Inr (dt1, pu1, nd1)" and
    rest: "scan_columns fo tab re ids cols (dt1, pu1, nd1) = Inr (dt', pu', nd')"
    by (auto split: sum.splits)
  from Cons.IH[OF rest] scan_column_unk_columns[OF step, of v] show ?case by auto
qed

text \<open>
  C7. After a scan that returns, a column stands under the factor \<open>v\<close> in the dictionary
  of candidates exactly when it is no identifier column and has a value whose lowercase
  form is \<open>v\<close>, that does not convert to float, with \<open>v\<close> shorter than 20
  characters and free of \<^verbatim>\<open>/\<close>, \<^verbatim>\<open>-\<close> and digits. So a factor lists every column
  where it appeared.
\<close>

theorem candidate_registration:
  assumes "get_dtypes_and_unks fo pd_tab regex_unk sampleID_cols = Inr (dtypes, potential_unks, nan_diversity)"
  shows "column \<in> unk_columns potential_unks v \<longleftrightarrow>
         column \<notin> set (sampleIDs_of sampleID_cols) \<and>
         (\<exists>ser V. df_get pd_tab column = Inr ser \<and> V \<in> set (svalues ser) \<and>
                  lower (py_str fo V) = v \<and> \<not> py_float_ok V \<and>
                  length v < 20 \<and> CHR ''/'' \<notin> set v \<and> CHR ''-'' \<notin> set v \<and>
                  (\<forall>c \<in> set v. \<not> isdigit c))"
proof -
  have e: "unk_columns [] v = {}" by (simp add: unk_columns_def)
  show ?thesis
    unfolding scan_columns_unk_columns[OF assms[unfolded get_dtypes_and_unks_def], of v] e
    using df_get_in_columns[of pd_tab column]
    by (auto simp: contributes_def registers_def is_candidate_def filter_empty_conv)
qed


theorem candidate_registration_witness:
  "get_dtypes_and_unks ex_ops
     [\<lparr>sname = ''weight_kg'', sdtype = ''object'',
        svalues = [PStr ''55.2'', PStr ''unk'', PStr ''60.0'']\<rparr>]
     (\<lambda>v. False) None
     = Inr ([(''weight_kg'', [''object'', ''check''])], [(''unk'', [''weight_kg''])], {})
   \<and> ''weight_kg'' \<in> unk_columns [(''unk'', [''weight_kg''])] ''unk''
   \<and> ((''weight_kg'' \<in> unk_columns [(''unk'', [''weight_kg''])] ''unk'') =
       (''weight_kg'' \<notin> set (sampleIDs_of None) \<and>
        (\<exists>ser V. df_get [\<lparr>sname = ''weight_kg'', sdtype = ''object'',
                            svalues = [PStr ''55.2'', PStr ''unk'', PStr ''60.0'']\<rparr>] ''weight_kg'' = Inr ser \<and>
                 V \<in> set (svalues ser) \<and>
                 lower (py_str ex_ops V) = ''unk'' \<and> \<not> py_float_ok V \<and>
                 length ''unk'' < 20 \<and> CHR ''/'' \<notin> set ''unk'' \<and> CHR ''-'' \<notin> set ''unk'' \<and>
                 (\<forall>c \<in> set ''unk''. \<not> isdigit c))))"
proof -
  have h1: "get_dtypes_and_unks ex_ops
     [\<lparr>sname = ''weight_kg'', sdtype = ''object'',
        svalues = [PStr ''55.2'', PStr ''unk'', PStr ''60.0'']\<rparr>]
     (\<lambda>v. False) None
     = Inr ([(''weight_kg'', [''object'', ''check''])], [(''unk'', [''weight_kg''])], {})"
    by code_simp
  have h2: "''weight_kg'' \<in> unk_columns [(''unk'', [''weight_kg''])] ''unk''"
    by code_simp
  from candidate_registration[OF h1, where column = "''weight_kg''" and v = "''unk''"] h1 h2
  show ?thesis by (intro conjI)
qed

section \<open>The test for the native missing value\<close>

lemma NaN_is_float_literal: "is_float_literal ''NaN''"
  by code_simp

lemma NAN_is_float_literal: "is_float_literal ''NAN''"
  by code_simp

lemma scan_value_str:
  "\<exists>nd'. scan_value fo re c (PStr s) (fts, pu, nd) =
     Inr (if s = ''nan'' then (fts\<lparr>fts0 := fts0 fts + 1\<rparr>, pu, nd')
          else if is_float_literal s then (fts\<lparr>fts1 := fts1 fts + 1\<rparr>, pu, nd')
          else (fts\<lparr>fts2 := fts2 fts + 1, fts3 := fts3 fts @ [PStr s]\<rparr>,
                (if is_candidate (lower s) then setdefault_append (lower s) c pu else pu), nd'))"
  by (simp add: scan_value_def Let_def)

text \<open>
  C9. The test \<^verbatim>\<open>str(V) == 'nan'\<close> is exact. A value that prints as \<^verbatim>\<open>nan\<close> raises
  the first counter only: the list of non-floats and the candidates stay as they are. A
  value that prints otherwise never raises the first counter. The strings \<^verbatim>\<open>NaN\<close> and
  \<^verbatim>\<open>NAN\<close> are float literals and raise the second counter.
\<close>

theorem native_missing_case_sensitive:
  "(py_str fo V = ''nan'' \<and> scan_value fo regex_unk column V (fts, pu, nd) = Inr (fts', pu', nd')
      \<longrightarrow> fts' = fts\<lparr>fts0 := fts0 fts + 1\<rparr> \<and> pu' = pu)
   \<and> (py_str fo V \<noteq> ''nan'' \<and> scan_value fo regex_unk column V (fts, pu, nd) = Inr (fts', pu', nd')
      \<longrightarrow> fts0 fts' = fts0 fts)
   \<and> (\<exists>nd'. scan_value fo regex_unk column (PStr ''nan'') (fts, pu, nd)
              = Inr (fts\<lparr>fts0 := fts0 fts + 1\<rparr>, pu, nd'))
   \<and> (\<exists>nd'. scan_value fo regex_unk column (PStr ''NaN'') (fts, pu, nd)
              = Inr (fts\<lparr>fts1 := fts1 fts + 1\<rparr>, pu, nd'))
   \<and> (\<exists>nd'. scan_value fo regex_unk column (PStr ''NAN'') (fts, pu, nd)
              = Inr (fts\<lparr>fts1 := fts1 fts + 1\<rparr>, pu, nd'))"
proof (intro conjI impI)
  assume a: "py_str fo V = ''nan'' \<and> scan_value fo regex_unk column V (fts, pu, nd) = Inr (fts', pu', nd')"
  then show "fts' = fts\<lparr>fts0 := fts0 fts + 1\<rparr>" "pu' = pu"
    by (auto simp: scan_value_def Let_def split: if_splits sum.splits)
next
  assume a: "py_str fo V \<noteq> ''nan'' \<and> scan_value fo regex_unk column V (fts, pu, nd) = Inr (fts', pu', nd')"
  then show "fts0 fts' = fts0 fts"
    by (auto simp: scan_value_def Let_def split: if_splits sum.splits)
next
  show "\<exists>nd'. scan_value fo regex_unk column (PStr ''nan'') (fts, pu, nd)
              = Inr (fts\<lparr>fts0 := fts0 fts + 1\<rparr>, pu, nd')"
    using scan_value_str[of fo regex_unk column "''nan''" fts pu nd] by simp
next
  show "\<exists>nd'. scan_value fo regex_unk column (PStr ''NaN'') (fts, pu, nd)
              = Inr (fts\<lparr>fts1 := fts1 fts + 1\<rparr>, pu, nd')"
    using scan_value_str[of fo regex_unk column "''NaN''" fts pu nd] NaN_is_float_literal by simp
next
  show "\<exists>nd'. scan_value fo regex_unk column (PStr ''NAN'') (fts, pu, nd)
              = Inr (fts\<lparr>fts1 := fts1 fts + 1\<rparr>, pu, nd')"
    using scan_value_str[of fo regex_unk column "''NAN''" fts pu nd] NAN_is_float_literal by simp
qed

theorem native_missing_case_sensitive_witness:
  "py_str ex_ops (PFloat ''nan'') = ''nan''
   \<and> scan_value ex_ops (\<lambda>v. False) ''c'' (PFloat ''nan'')
        (\<lparr>fts0 = 0, fts1 = 2, fts2 = 1, fts3 = [PStr ''x'']\<rparr>, [(''x'', [''c''])], {})
      = Inr (\<lparr>fts0 = 1, fts1 = 2, fts2 = 1, fts3 = [PStr ''x'']\<rparr>, [(''x'', [''c''])], {})
   \<and> \<lparr>fts0 = 1, fts1 = 2, fts2 = 1, fts3 = [PStr ''x'' :: string pyval]\<rparr>
      = \<lparr>fts0 = 0, fts1 = 2, fts2 = 1, fts3 = [PStr ''x'']\<rparr>
          \<lparr>fts0 := fts0 \<lparr>fts0 = 0, fts1 = 2, fts2 = 1, fts3 = [PStr ''x'' :: string pyval]\<rparr> + 1\<rparr>
   \<and> py_str ex_ops (PStr ''NaN'') \<noteq> ''nan''
   \<and> scan_value ex_ops (\<lambda>v. False) ''c'' (PStr ''NaN'')
        (\<lparr>fts0 = 0, fts1 = 2, fts2 = 1, fts3 = [PStr ''x'']\<rparr>, [(''x'', [''c''])], {})
      = Inr (\<lparr>fts0 = 0, fts1 = 3, fts2 = 1, fts3 = [PStr ''x'']\<rparr>, [(''x'', [''c''])], {})
   \<and> fts0 \<lparr>fts0 = 0, fts1 = 3, fts2 = 1, fts3 = [PStr ''x'' :: string pyval]\<rparr>
      = fts0 \<lparr>fts0 = 0, fts1 = 2, fts2 = 1, fts3 = [PStr ''x'' :: string pyval]\<rparr>"
proof -
  have a1: "py_str ex_ops (PFloat ''nan'') = ''nan''"
    by code_simp
  have a2: "scan_value ex_ops (\<lambda>v. False) ''c'' (PFloat ''nan'')
        (\<lparr>fts0 = 0, fts1 = 2, fts2 = 1, fts3 = [PStr ''x'']\<rparr>, [(''x'', [''c''])], {})
      = Inr (\<lparr>fts0 = 1, fts1 = 2, fts2 = 1, fts3 = [PStr ''x'']\<rparr>, [(''x'', [''c''])], {})"
    by code_simp
  have b1: "py_str ex_ops (PStr ''NaN'') \<noteq> ''nan''"
    by code_simp
  have b2: "scan_value ex_ops (\<lambda>v. False) ''c'' (PStr ''NaN'')
        (\<lparr>fts0 = 0, fts1 = 2, fts2 = 1, fts3 = [PStr ''x'']\<rparr>, [(''x'', [''c''])], {})
      = Inr (\<lparr>fts0 = 0, fts1 = 3, fts2 = 1, fts3 = [PStr ''x'']\<rparr>, [(''x'', [''c''])], {})"
    by code_simp
  from native_missing_case_sensitive
         [of ex_ops "PFloat ''nan''" "\<lambda>v. False" "''c''"
             "\<lparr>fts0 = 0, fts1 = 2, fts2 = 1, fts3 = [PStr ''x'']\<rparr>" "[(''x'', [''c''])]" "{}"
             "\<lparr>fts0 = 1, fts1 = 2, fts2 = 1, fts3 = [PStr ''x'']\<rparr>" "[(''x'', [''c''])]" "{}"]
       a1 a2
  have c1: "\<lparr>fts0 = 1, fts1 = 2, fts2 = 1, fts3 = [PStr ''x'' :: string pyval]\<rparr>
      = \<lparr>fts0 = 0, fts1 = 2, fts2 = 1, fts3 = [PStr ''x'']\<rparr>
          \<lparr>fts0 := fts0 \<lparr>fts0 = 0, fts1 = 2, fts2 = 1, fts3 = [PStr ''x'' :: string pyval]\<rparr> + 1\<rparr>"
    by blast
  from native_missing_case_sensitive
         [of ex_ops "PStr ''NaN''" "\<lambda>v. False" "''c''"
             "\<lparr>fts0 = 0, fts1 = 2, fts2 = 1, fts3 = [PStr ''x'']\<rparr>" "[(''x'', [''c''])]" "{}"
             "\<lparr>fts0 = 0, fts1 = 3, fts2 = 1, fts3 = [PStr ''x'']\<rparr>" "[(''x'', [''c''])]" "{}"]
       b1 b2
  have c2: "fts0 \<lparr>fts0 = 0, fts1 = 3, fts2 = 1, fts3 = [PStr ''x'' :: string pyval]\<rparr>
      = fts0 \<lparr>fts0 = 0, fts1 = 2, fts2 = 1, fts3 = [PStr ''x'' :: string pyval]\<rparr>"
    by blast
  from a1 a2 c1 b1 b2 c2 show ?thesis by (intro conjI)
qed

section \<open>A scalar that is no string and matches the pattern\<close>

lemma scan_value_error:
  "scan_value fo re c V st = Inl e \<Longrightarrow> e = TypeError"
  by (cases V; cases st) (auto simp: scan_value_def Let_def split: if_splits sum.splits)

lemma scan_value_nonstr:
  "\<forall>s. V \<noteq> PStr s \<Longrightarrow> re (lower (py_str fo V)) \<Longrightarrow> scan_value fo re c V st = Inl TypeError"
  by (cases V; cases st) (auto simp: scan_value_def Let_def)

lemma scan_values_error:
  "scan_values fo re c Vs st = Inl e \<Longrightarrow> e = TypeError"
proof (induction Vs arbitrary: st)
  case Nil
  then show ?case by simp
next
  case (Cons V Vs)
  then show ?case
    by (auto split: sum.splits dest: scan_value_error)
qed

lemma scan_values_nonstr:
  "V \<in> set Vs \<Longrightarrow> \<forall>s. V \<noteq> PStr s \<Longrightarrow> re (lower (py_str fo V)) \<Longrightarrow>
   scan_values fo re c Vs st = Inl TypeError"
proof (induction Vs arbitrary: st)
  case Nil
  then show ?case by simp
next
  case (Cons W Vs)
  show ?case
  proof (cases "scan_value fo re c W st")
    case (Inl e)
    with scan_value_error[OF Inl] show ?thesis by simp
  next
    case (Inr st')
    show ?thesis
    proof (cases "V = W")
      case True
      have "scan_value fo re c V st = Inl TypeError"
        by (rule scan_value_nonstr) (fact Cons.prems(2), fact Cons.prems(3))
      with True Inr show ?thesis by simp
    next
      case False
      with Cons.prems have "V \<in> set Vs" by simp
      then have "scan_values fo re c Vs st' = Inl TypeError"
        by (rule Cons.IH) (fact Cons.prems(2), fact Cons.prems(3))
      with Inr show ?thesis by simp
    qed
  qed
qed

lemma list_append_at_dict_set:
  "list_append_at k x (dict_set k v d) = Inr (dict_set k (v @ [x]) (dict_set k v d))"
  by (simp add: list_append_at_def map_of_dict_set)

lemma df_get_columns: "c \<in> set (columns tab) \<Longrightarrow> \<exists>ser. df_get tab c = Inr ser"
  by (auto simp: df_get_def columns_def find_None_iff split: option.splits)

lemma scan_column_error:
  assumes "scan_column fo tab re ids c out = Inl e" and "c \<in> set (columns tab)"
  shows "e = TypeError"
proof -
  from df_get_columns[OF assms(2)] obtain ser where g: "df_get tab c = Inr ser" by blast
  obtain dt pu nd where out: "out = (dt, pu, nd)" by (cases out) auto
  from assms(1) g show ?thesis
    unfolding out
    by (auto simp: scan_column_def Let_def list_append_at_dict_set set_column_dtypes_spec
             split: if_splits sum.splits dest: scan_values_error)
qed

lemma scan_column_nonstr:
  assumes "df_get tab c = Inr ser" and "c \<notin> set ids" and "V \<in> set (svalues ser)"
      and "\<forall>s. V \<noteq> PStr s" and "re (lower (py_str fo V))"
  shows "scan_column fo tab re ids c out = Inl TypeError"
proof -
  obtain dt pu nd where out: "out = (dt, pu, nd)" by (cases out) auto
  from assms(3) have "V \<in> set (unique (svalues ser))" by (simp add: set_unique)
  then have "scan_values fo re c (unique (svalues ser)) (fts_init, pu, nd) = Inl TypeError"
    by (rule scan_values_nonstr) (fact assms(4), fact assms(5))
  with assms(1,2) show ?thesis
    unfolding out by (simp add: scan_column_def Let_def)
qed

lemma scan_columns_nonstr:
  assumes "df_get tab c = Inr ser" and "c \<notin> set ids" and "V \<in> set (svalues ser)"
      and "\<forall>s. V \<noteq> PStr s" and "re (lower (py_str fo V))"
  shows "c \<in> set cols \<Longrightarrow> set cols \<subseteq> set (columns tab) \<Longrightarrow>
         scan_columns fo tab re ids cols out = Inl TypeError"
proof (induction cols arbitrary: out)
  case Nil
  then show ?case by simp
next
  case (Cons col cols)
  show ?case
  proof (cases "scan_column fo tab re ids col out")
    case (Inl e)
    from scan_column_error[OF Inl] Cons.prems(2) Inl show ?thesis by simp
  next
    case (Inr out')
    show ?thesis
    proof (cases "c = col")
      case True
      have "scan_column fo tab re ids c out = Inl TypeError"
        by (rule scan_column_nonstr) (fact assms)+
      with True Inr show ?thesis by simp
    next
      case False
      with Cons.prems have "c \<in> set cols" "set cols \<subseteq> set (columns tab)" by auto
      from Cons.IH[OF this] Inr show ?thesis by simp
    qed
  qed
qed

text \<open>
  C10. When a column that is no identifier column holds a scalar that is no string and
  whose lowercase form matches the caller's pattern, the scanner does not return: the
  test \<^verbatim>\<open>':Unspecified' not in V\<close> raises \<^verbatim>\<open>TypeError\<close>. A float column with a NaN
  and a pattern that matches \<^verbatim>\<open>nan\<close> is such an input.
\<close>

theorem scanner_type_error:
  assumes "df_get pd_tab column = Inr ser"
      and "column \<notin> set (sampleIDs_of sampleID_cols)"
      and "V \<in> set (svalues ser)"
      and "\<forall>s. V \<noteq> PStr s"
      and "regex_unk (lower (py_str fo V))"
    shows "get_dtypes_and_unks fo pd_tab regex_unk sampleID_cols = Inl TypeError"
proof -
  from df_get_in_columns[OF assms(1)] have c: "column \<in> set (columns pd_tab)" by simp
  have "scan_columns fo pd_tab regex_unk (sampleIDs_of sampleID_cols) (columns pd_tab) ([], [], {})
          = Inl TypeError"
    by (rule scan_columns_nonstr) (fact assms c subset_refl)+
  then show ?thesis by (simp add: get_dtypes_and_unks_def)
qed


theorem scanner_type_error_witness:
  "df_get [\<lparr>sname = ''age'', sdtype = ''float64'', svalues = [PFloat ''25.0'', PFloat ''nan'']\<rparr>] ''age''
     = Inr \<lparr>sname = ''age'', sdtype = ''float64'', svalues = [PFloat ''25.0'', PFloat ''nan'']\<rparr>
   \<and> ''age'' \<notin> set (sampleIDs_of None)
   \<and> PFloat ''nan'' \<in> set (svalues \<lparr>sname = ''age'', sdtype = ''float64'',
                                      svalues = [PFloat ''25.0'', PFloat ''nan'']\<rparr>)
   \<and> (\<lambda>v. v = ''nan'') (lower (py_str ex_ops (PFloat ''nan'')))
   \<and> get_dtypes_and_unks ex_ops
       [\<lparr>sname = ''age'', sdtype = ''float64'', svalues = [PFloat ''25.0'', PFloat ''nan'']\<rparr>]
       (\<lambda>v. v = ''nan'') None
     = Inl TypeError"
proof -
  have h1: "df_get [\<lparr>sname = ''age'', sdtype = ''float64'', svalues = [PFloat ''25.0'', PFloat ''nan'']\<rparr>] ''age''
     = Inr \<lparr>sname = ''age'', sdtype = ''float64'', svalues = [PFloat ''25.0'', PFloat ''nan'']\<rparr>"
    by code_simp
  have h2: "''age'' \<notin> set (sampleIDs_of None)"
    by code_simp
  have h3: "PFloat ''nan'' \<in> set (svalues \<lparr>sname = ''age'', sdtype = ''float64'',
                                      svalues = [PFloat ''25.0'', PFloat ''nan'']\<rparr>)"
    by simp
  have h4: "\<forall>s. PFloat ''nan'' \<noteq> (PStr s :: string pyval)"
    by simp
  have h5: "(\<lambda>v. v = ''nan'') (lower (py_str ex_ops (PFloat ''nan'')))"
    by code_simp
  have "get_dtypes_and_unks ex_ops
       [\<lparr>sname = ''age'', sdtype = ''float64'', svalues = [PFloat ''25.0'', PFloat ''nan'']\<rparr>]
       (\<lambda>v. v = ''nan'') None
     = Inl TypeError"
    by (rule scanner_type_error[where V = "PFloat ''nan''"]) (fact h1 h2 h3 h4 h5)+
  with h1 h2 h3 h5 show ?thesis by (intro conjI)
qed

section \<open>The rewriter\<close>

lemma astype_float64_values_fix:
  "list_all is_PFloat Vs \<Longrightarrow> astype_float64_values fo Vs = Inr Vs"
proof (induction Vs)
  case Nil
  then show ?case by simp
next
  case (Cons V Vs)
  then show ?case by (cases V) auto
qed

lemma astype_float64_value_result:
  "astype_float64_value fo V = Inr W \<Longrightarrow> is_PFloat W"
  by (cases V) (auto split: if_splits)

lemma astype_float64_values_result:
  "astype_float64_values fo Vs = Inr Ws \<Longrightarrow> list_all is_PFloat Ws"
proof (induction Vs arbitrary: Ws)
  case Nil
  then show ?case by simp
next
  case (Cons V Vs)
  then show ?case
    by (auto split: sum.splits dest: astype_float64_value_result)
qed

lemma astype_str_fix:
  "list_all is_PStr Vs \<Longrightarrow> map (\<lambda>V. PStr (py_str fo V)) Vs = Vs"
proof (induction Vs)
  case Nil
  then show ?case by simp
next
  case (Cons V Vs)
  then show ?case by (cases V) auto
qed

lemma astype_float64_converted:
  "astype_float64 fo ser = Inr ser' \<Longrightarrow> converted ''Q'' ser' \<and> sname ser' = sname ser"
  by (auto simp: astype_float64_def converted_def split: sum.splits dest: astype_float64_values_result)

lemma astype_str_converted:
  "dtype \<noteq> ''Q'' \<Longrightarrow> converted dtype (astype_str fo ser)"
  by (simp add: astype_str_def converted_def list_all_iff)

lemma astype_float64_fix:
  "converted ''Q'' ser \<Longrightarrow> astype_float64 fo ser = Inr ser"
  by (simp add: astype_float64_def converted_def astype_float64_values_fix)

lemma astype_str_fix_series:
  "dtype \<noteq> ''Q'' \<Longrightarrow> converted dtype ser \<Longrightarrow> astype_str fo ser = ser"
  by (simp add: astype_str_def converted_def astype_str_fix)

lemma df_get_Cons:
  "df_get (s # tab) c = (if sname s = c then Inr s else df_get tab c)"
  by (simp add: df_get_def)

lemma df_get_Nil: "df_get [] c = Inl KeyError"
  by (simp add: df_get_def)

lemma df_get_df_set_same:
  "df_get (df_set tab col ser) col = Inr (ser\<lparr>sname := col\<rparr>)"
  by (induction tab) (auto simp: df_get_Cons df_get_Nil)

lemma df_get_df_set_other:
  "c \<noteq> col \<Longrightarrow> df_get (df_set tab col ser) c = df_get tab c"
  by (induction tab) (auto simp: df_get_Cons df_get_Nil)

lemma df_set_df_get:
  "df_get tab col = Inr ser \<Longrightarrow> df_set tab col ser = tab"
  by (induction tab) (auto simp: df_get_Cons df_get_Nil)

lemma columns_df_set:
  "col \<in> set (columns tab) \<Longrightarrow> columns (df_set tab col ser) = columns tab"
  by (induction tab) (auto simp: columns_def)

lemma df_get_absent: "c \<notin> set (columns tab) \<Longrightarrow> df_get tab c = Inl KeyError"
  by (induction tab) (auto simp: df_get_Cons df_get_Nil columns_def)

lemma rectify_step_absent:
  "col \<notin> set (columns md_pd) \<Longrightarrow> rectify_step fo (col, dtype) md_pd = Inl KeyError"
  by (simp add: rectify_step_def df_get_absent)

lemma rectify_step_columns:
  assumes "rectify_step fo (col, dtype) tab = Inr tab'"
  shows "col \<in> set (columns tab) \<and> columns tab' = columns tab"
proof -
  from assms have c: "col \<in> set (columns tab)"
    using rectify_step_absent[of col tab fo dtype] by auto
  with assms show ?thesis
    by (auto simp: rectify_step_def columns_df_set split: if_splits sum.splits)
qed

lemma rectify_step_result:
  assumes "rectify_step fo (col, dtype) tab = Inr tab'"
  shows "\<exists>ser'. df_get tab' col = Inr ser' \<and> converted dtype ser'"
    and "c \<noteq> col \<Longrightarrow> df_get tab' c = df_get tab c"
proof -
  from rectify_step_columns[OF assms] have c: "col \<in> set (columns tab)" by simp
  from df_get_columns[OF c] obtain ser where g: "df_get tab col = Inr ser" by blast
  from df_get_in_columns[OF g] have n: "sname ser = col" by simp
  show "\<exists>ser'. df_get tab' col = Inr ser' \<and> converted dtype ser'"
  proof (cases "dtype = ''Q''")
    case True
    with assms c g obtain ser' where a: "astype_float64 fo ser = Inr ser'" and t: "tab' = df_set tab col ser'"
      by (auto simp: rectify_step_def split: sum.splits)
    from astype_float64_converted[OF a] n have "converted ''Q'' (ser'\<lparr>sname := col\<rparr>)"
      by (simp add: converted_def)
    with t True show ?thesis by (simp add: df_get_df_set_same)
  next
    case False
    with assms c g have t: "tab' = df_set tab col (astype_str fo ser)"
      by (auto simp: rectify_step_def split: sum.splits)
    from astype_str_converted[OF False, of fo ser] have "converted dtype ((astype_str fo ser)\<lparr>sname := col\<rparr>)"
      by (simp add: converted_def)
    with t show ?thesis by (simp add: df_get_df_set_same)
  qed
  show "c \<noteq> col \<Longrightarrow> df_get tab' c = df_get tab c"
    using assms c g
    by (auto simp: rectify_step_def df_get_df_set_other split: if_splits sum.splits)
qed

lemma rectify_step_fix:
  assumes "df_get tab col = Inr ser" and "converted dtype ser"
  shows "rectify_step fo (col, dtype) tab = Inr tab"
proof -
  from df_get_in_columns[OF assms(1)] have c: "col \<in> set (columns tab)" by simp
  show ?thesis
  proof (cases "dtype = ''Q''")
    case True
    with assms astype_float64_fix[of ser fo] c show ?thesis
      by (simp add: rectify_step_def df_set_df_get)
  next
    case False
    with assms astype_str_fix_series[OF False assms(2), of fo] c show ?thesis
      by (simp add: rectify_step_def df_set_df_get)
  qed
qed

lemma rectify_preserve:
  "rectify_dtypes_in_md fo m tab = Inr tab' \<Longrightarrow> c \<notin> fst ` set m \<Longrightarrow> df_get tab' c = df_get tab c"
proof (induction m arbitrary: tab)
  case Nil
  then show ?case by simp
next
  case (Cons item m)
  obtain col dtype where i: "item = (col, dtype)" by (cases item) auto
  from Cons.prems(1) obtain tab1 where
    step: "rectify_step fo (col, dtype) tab = Inr tab1" and
    rest: "rectify_dtypes_in_md fo m tab1 = Inr tab'"
    by (auto simp: i split: sum.splits)
  from Cons.prems(2) i have "c \<noteq> col" "c \<notin> fst ` set m" by auto
  with Cons.IH[OF rest] rectify_step_result(2)[OF step] show ?case by simp
qed

lemma rectify_all_converted:
  "distinct (map fst m) \<Longrightarrow> rectify_dtypes_in_md fo m tab = Inr tab' \<Longrightarrow> (c, d) \<in> set m \<Longrightarrow>
   \<exists>ser. df_get tab' c = Inr ser \<and> converted d ser"
proof (induction m arbitrary: tab)
  case Nil
  then show ?case by simp
next
  case (Cons item m)
  obtain col dtype where i: "item = (col, dtype)" by (cases item) auto
  from Cons.prems(2) obtain tab1 where
    step: "rectify_step fo (col, dtype) tab = Inr tab1" and
    rest: "rectify_dtypes_in_md fo m tab1 = Inr tab'"
    by (auto simp: i split: sum.splits)
  from Cons.prems(1) i have d: "distinct (map fst m)" and n: "col \<notin> fst ` set m" by auto
  show ?case
  proof (cases "(c, d) \<in> set m")
    case True
    from Cons.IH[OF d rest True] show ?thesis .
  next
    case False
    with Cons.prems(3) i have e: "c = col" "d = dtype" by auto
    from rectify_preserve[OF rest n] rectify_step_result(1)[OF step] e show ?thesis by simp
  qed
qed

lemma rectify_fix:
  "(\<And>c d. (c, d) \<in> set m \<Longrightarrow> \<exists>ser. df_get tab c = Inr ser \<and> converted d ser) \<Longrightarrow>
   rectify_dtypes_in_md fo m tab = Inr tab"
proof (induction m)
  case Nil
  then show ?case by simp
next
  case (Cons item m)
  obtain col dtype where i: "item = (col, dtype)" by (cases item) auto
  from Cons.prems[of col dtype] i obtain ser where "df_get tab col = Inr ser" "converted dtype ser"
    by auto
  from rectify_step_fix[OF this] have "rectify_step fo item tab = Inr tab" by (simp add: i)
  moreover have "rectify_dtypes_in_md fo m tab = Inr tab"
    by (rule Cons.IH) (use Cons.prems in auto)
  ultimately show ?case by simp
qed

text \<open>
  C8. The type map is a dictionary, so its keys are distinct. When the rewriter returns a
  table, rewriting that table with the same map returns it unchanged.
\<close>

theorem rewriter_idempotent:
  assumes "distinct (map fst dtypes_final)"
      and "rectify_dtypes_in_md fo dtypes_final md_pd = Inr md_pd'"
    shows "rectify_dtypes_in_md fo dtypes_final md_pd' = Inr md_pd'"
  by (rule rectify_fix) (rule rectify_all_converted[OF assms])

theorem rewriter_idempotent_witness:
  "distinct (map fst [(''age'', ''Q''), (''site'', ''O'')])
   \<and> rectify_dtypes_in_md ex_ops [(''age'', ''Q''), (''site'', ''O'')]
       [\<lparr>sname = ''age'', sdtype = ''object'', svalues = [PStr ''25'', PFloat ''nan'']\<rparr>,
        \<lparr>sname = ''site'', sdtype = ''object'', svalues = [PStr ''gut'', PFloat ''nan'', PInt 3]\<rparr>]
     = Inr [\<lparr>sname = ''age'', sdtype = ''float64'', svalues = [PFloat ''25'', PFloat ''nan'']\<rparr>,
            \<lparr>sname = ''site'', sdtype = ''object'', svalues = [PStr ''gut'', PStr ''nan'', PStr ''3'']\<rparr>]
   \<and> rectify_dtypes_in_md ex_ops [(''age'', ''Q''), (''site'', ''O'')]
       [\<lparr>sname = ''age'', sdtype = ''float64'', svalues = [PFloat ''25'', PFloat ''nan'']\<rparr>,
        \<lparr>sname = ''site'', sdtype = ''object'', svalues = [PStr ''gut'', PStr ''nan'', PStr ''3'']\<rparr>]
     = Inr [\<lparr>sname = ''age'', sdtype = ''float64'', svalues = [PFloat ''25'', PFloat ''nan'']\<rparr>,
            \<lparr>sname = ''site'', sdtype = ''object'', svalues = [PStr ''gut'', PStr ''nan'', PStr ''3'']\<rparr>]"
proof -
  have h1: "distinct (map fst [(''age'', ''Q''), (''site'', ''O'')])"
    by simp
  have h2: "rectify_dtypes_in_md ex_ops [(''age'', ''Q''), (''site'', ''O'')]
       [\<lparr>sname = ''age'', sdtype = ''object'', svalues = [PStr ''25'', PFloat ''nan'']\<rparr>,
        \<lparr>sname = ''site'', sdtype = ''object'', svalues = [PStr ''gut'', PFloat ''nan'', PInt 3]\<rparr>]
     = Inr [\<lparr>sname = ''age'', sdtype = ''float64'', svalues = [PFloat ''25'', PFloat ''nan'']\<rparr>,
            \<lparr>sname = ''site'', sdtype = ''object'', svalues = [PStr ''gut'', PStr ''nan'', PStr ''3'']\<rparr>]"
    by code_simp
  from rewriter_idempotent[OF h1 h2] h1 h2 show ?thesis by (intro conjI)
qed

lemma rectify_columns:
  "rectify_dtypes_in_md fo m tab = Inr tab' \<Longrightarrow> fst ` set m \<subseteq> set (columns tab) \<and> columns tab' = columns tab"
proof (induction m arbitrary: tab)
  case Nil
  then show ?case by simp
next
  case (Cons item m)
  obtain col dtype where i: "item = (col, dtype)" by (cases item) auto
  from Cons.prems(1) obtain tab1 where
    step: "rectify_step fo (col, dtype) tab = Inr tab1" and
    rest: "rectify_dtypes_in_md fo m tab1 = Inr tab'"
    by (auto simp: i split: sum.splits)
  from Cons.IH[OF rest] rectify_step_columns[OF step] i show ?case by auto
qed

text \<open>
  C4. The branch for a column that the table does not have assigns to
  \<^verbatim>\<open>md_pd[col]\<close>, but it reads \<^verbatim>\<open>md_pd[col]\<close> first, and that read raises
  \<^verbatim>\<open>KeyError\<close>. So no column is created: the step for the absent column raises, and
  the rewriter returns no table whenever its map names a column the table does not have.
\<close>

theorem rewriter_absent_column:
  assumes "(col, dtype) \<in> set dtypes_final" and "col \<notin> set (columns md_pd)"
  shows "rectify_step fo (col, dtype) md_pd = Inl KeyError
       \<and> (\<exists>e. rectify_dtypes_in_md fo dtypes_final md_pd = Inl e)"
proof -
  have "\<exists>e. rectify_dtypes_in_md fo dtypes_final md_pd = Inl e"
  proof (cases "rectify_dtypes_in_md fo dtypes_final md_pd")
    case (Inl e)
    then show ?thesis by simp
  next
    case (Inr tab')
    from rectify_columns[OF Inr] assms show ?thesis by force
  qed
  with rectify_step_absent[OF assms(2)] show ?thesis by simp
qed

theorem rewriter_absent_column_witness:
  "(''site'', ''O'') \<in> set [(''age'', ''Q''), (''site'', ''O'')]
   \<and> ''site'' \<notin> set (columns [\<lparr>sname = ''age'', sdtype = ''object'', svalues = [PStr ''25'', PFloat ''nan'']\<rparr>])
   \<and> rectify_step ex_ops (''site'', ''O'')
        [\<lparr>sname = ''age'', sdtype = ''object'', svalues = [PStr ''25'', PFloat ''nan'']\<rparr>]
      = Inl KeyError
   \<and> rectify_dtypes_in_md ex_ops [(''age'', ''Q''), (''site'', ''O'')]
        [\<lparr>sname = ''age'', sdtype = ''object'', svalues = [PStr ''25'', PFloat ''nan'']\<rparr>]
      = Inl KeyError"
proof -
  have h1: "(''site'', ''O'') \<in> set [(''age'', ''Q''), (''site'', ''O'')]"
    by simp
  have h2: "''site'' \<notin> set (columns [\<lparr>sname = ''age'', sdtype = ''object'', svalues = [PStr ''25'', PFloat ''nan'']\<rparr>])"
    by (simp add: columns_def)
  have h3: "rectify_dtypes_in_md ex_ops [(''age'', ''Q''), (''site'', ''O'')]
        [\<lparr>sname = ''age'', sdtype = ''object'', svalues = [PStr ''25'', PFloat ''nan'']\<rparr>]
      = Inl KeyError"
    by code_simp
  from rewriter_absent_column[OF h1 h2, of ex_ops] h1 h2 h3 show ?thesis by blast
qed

section \<open>The confirmer keeps the factors of more than \<open>thresh\<close> columns\<close>

lemma map_insort_key: "map f (insort_key f x xs) = insort (f x) (map f xs)"
  by (induction xs) auto

lemma map_sort_key: "map f (sort_key f xs) = sort (map f xs)"
  by (induction xs) (auto simp: sort_key_def map_insort_key)

lemma sum_list_indicator:
  "sum_list (map (\<lambda>x. if P x then 1 else 0) xs) = length (filter P xs)"
  by (induction xs) auto

lemma set_map_nth_filter:
  "set (map (\<lambda>j. f (xs ! j)) (filter (\<lambda>j. P (xs ! j)) [0..<length xs])) = {f x | x. x \<in> set xs \<and> P x}"
proof -
  have "map (\<lambda>j. f (xs ! j)) (filter (\<lambda>j. P (xs ! j)) [0..<length xs])
        = map f (filter P (map (\<lambda>j. xs ! j) [0..<length xs]))"
    by (simp add: filter_map comp_def)
  also have "map (\<lambda>j. xs ! j) [0..<length xs] = xs"
    by (rule map_nth)
  finally show ?thesis by auto
qed


lemma get_certainly_NaNs_columns:
  "set (bf_columns (get_certainly_NaNs potential_unks md_pd thresh)) =
   {fst it | it. it \<in> set potential_unks \<and>
       thresh < int (length (filter (\<lambda>col. col \<in> set (snd it)) (columns md_pd)))}"
proof -
  define items where "items = sort_key fst potential_unks"
  define cols where "cols = columns md_pd"
  define L where
    "L = map (\<lambda>col. map (\<lambda>(unk, unk_samples). if col \<in> set unk_samples then 1 else (0::nat)) items) cols"
  define labels where "labels = sort (map fst potential_unks)"
  define n where "n = length items"
  define cnt where "cnt = (\<lambda>it :: string \<times> string list. length (filter (\<lambda>col. col \<in> set (snd it)) cols))"
  define sumCols where "sumCols = map (\<lambda>j. sum_list (map (\<lambda>row. row ! j) L)) [0..<n]"
  have lab: "labels = map fst items"
    by (simp add: labels_def items_def map_sort_key)
  have len: "length labels = n"
    by (simp add: lab n_def)
  have si: "set items = set potential_unks"
    by (simp add: items_def)
  have sumcol: "sumCols ! j = cnt (items ! j)" if "j < n" for j
  proof -
    have "map (\<lambda>row. row ! j) L =
          map (\<lambda>col. if col \<in> set (snd (items ! j)) then 1 else 0) cols"
      using that by (simp add: L_def n_def case_prod_beta)
    then have "sum_list (map (\<lambda>row. row ! j) L) = cnt (items ! j)"
      by (simp add: sum_list_indicator cnt_def)
    with that show ?thesis by (simp add: sumCols_def)
  qed
  have labj: "labels ! j = fst (items ! j)" if "j < n" for j
    using that by (simp add: lab n_def)
  have unfolded: "bf_columns (get_certainly_NaNs potential_unks md_pd thresh) =
        map (\<lambda>j. labels ! j) (filter (\<lambda>j. thresh < int (sumCols ! j)) [0..<n])"
    unfolding get_certainly_NaNs_def Let_def sumCols_def L_def labels_def[symmetric] len
      items_def[symmetric] cols_def[symmetric]
    by simp
  have f: "filter (\<lambda>j. thresh < int (sumCols ! j)) [0..<n]
         = filter (\<lambda>j. thresh < int (cnt (items ! j))) [0..<n]"
    by (rule filter_cong) (simp_all add: sumcol)
  have m: "map (\<lambda>j. labels ! j) (filter (\<lambda>j. thresh < int (cnt (items ! j))) [0..<n])
         = map (\<lambda>j. fst (items ! j)) (filter (\<lambda>j. thresh < int (cnt (items ! j))) [0..<n])"
    by (rule map_cong) (simp_all add: labj)
  have "set (bf_columns (get_certainly_NaNs potential_unks md_pd thresh)) =
        set (map (\<lambda>j. fst (items ! j)) (filter (\<lambda>j. thresh < int (cnt (items ! j))) [0..<n]))"
    by (simp only: unfolded f m)
  also have "\<dots> = {fst x | x. x \<in> set items \<and> thresh < int (cnt x)}"
    unfolding n_def by (rule set_map_nth_filter)
  finally show ?thesis by (simp add: si cnt_def cols_def)
qed

lemma distinct_map_of_in:
  "distinct (map fst ps) \<Longrightarrow> (map_of ps k = Some v) = ((k, v) \<in> set ps)"
  by (auto dest: map_of_SomeD)

text \<open>
  C3. On a table with distinct column names, a factor is a column of the frame that
  \<^verbatim>\<open>get_certainly_NaNs\<close> returns exactly when it is a key of the candidates and the
  number of table columns in its list is greater than the threshold. The list may name
  a column several times: the column counts once. A factor of exactly \<open>thresh\<close> columns
  is left out, a factor of \<open>thresh + 1\<close> columns is kept.
\<close>

theorem confirmer_threshold:
  assumes "distinct (map fst potential_unks)" and "distinct (columns md_pd)"
  shows "(unk \<in> set (bf_columns (get_certainly_NaNs potential_unks md_pd thresh)) \<longleftrightarrow>
            (\<exists>unk_samples. map_of potential_unks unk = Some unk_samples \<and>
               thresh < int (card {col \<in> set (columns md_pd). col \<in> set unk_samples})))
       \<and> (map_of potential_unks unk = Some unk_samples \<and>
            int (card {col \<in> set (columns md_pd). col \<in> set unk_samples}) = thresh
            \<longrightarrow> unk \<notin> set (bf_columns (get_certainly_NaNs potential_unks md_pd thresh)))
       \<and> (map_of potential_unks unk = Some unk_samples \<and>
            int (card {col \<in> set (columns md_pd). col \<in> set unk_samples}) = thresh + 1
            \<longrightarrow> unk \<in> set (bf_columns (get_certainly_NaNs potential_unks md_pd thresh)))"
proof -
  have c: "length (filter (\<lambda>col. col \<in> set us) (columns md_pd))
         = card {col \<in> set (columns md_pd). col \<in> set us}" for us
  proof -
    have "{x. x \<in> set us} \<inter> set (columns md_pd) = {col \<in> set (columns md_pd). col \<in> set us}"
      by auto
    with distinct_length_filter[OF assms(2), of "\<lambda>col. col \<in> set us"] show ?thesis by simp
  qed
  have main: "unk \<in> set (bf_columns (get_certainly_NaNs potential_unks md_pd thresh)) \<longleftrightarrow>
            (\<exists>us. map_of potential_unks unk = Some us \<and>
               thresh < int (card {col \<in> set (columns md_pd). col \<in> set us}))" for unk
    unfolding get_certainly_NaNs_columns distinct_map_of_in[OF assms(1)] c
    by force
  show ?thesis
    unfolding main by auto
qed


theorem confirmer_threshold_witness:
  "distinct (map fst [(''unk'', [''b'', ''a'', ''a'']), (''missing'', [''a''])])
   \<and> distinct (columns [\<lparr>sname = ''a'', sdtype = ''object'', svalues = [PStr ''x'' :: string pyval]\<rparr>,
      \<lparr>sname = ''b'', sdtype = ''object'', svalues = [PStr ''x'']\<rparr>])
   \<and> map_of [(''unk'', [''b'', ''a'', ''a'']), (''missing'', [''a''])] ''missing'' = Some [''a'']
   \<and> int (card {col \<in> set (columns [\<lparr>sname = ''a'', sdtype = ''object'', svalues = [PStr ''x'' :: string pyval]\<rparr>,
      \<lparr>sname = ''b'', sdtype = ''object'', svalues = [PStr ''x'']\<rparr>]). col \<in> set [''a'']}) = 1
   \<and> ''missing'' \<notin> set (bf_columns (get_certainly_NaNs [(''unk'', [''b'', ''a'', ''a'']), (''missing'', [''a''])]
     [\<lparr>sname = ''a'', sdtype = ''object'', svalues = [PStr ''x'' :: string pyval]\<rparr>,
      \<lparr>sname = ''b'', sdtype = ''object'', svalues = [PStr ''x'']\<rparr>] 1))
   \<and> map_of [(''unk'', [''b'', ''a'', ''a'']), (''missing'', [''a''])] ''unk'' = Some [''b'', ''a'', ''a'']
   \<and> int (card {col \<in> set (columns [\<lparr>sname = ''a'', sdtype = ''object'', svalues = [PStr ''x'' :: string pyval]\<rparr>,
      \<lparr>sname = ''b'', sdtype = ''object'', svalues = [PStr ''x'']\<rparr>]). col \<in> set [''b'', ''a'', ''a'']}) = 1 + 1
   \<and> ''unk'' \<in> set (bf_columns (get_certainly_NaNs [(''unk'', [''b'', ''a'', ''a'']), (''missing'', [''a''])]
     [\<lparr>sname = ''a'', sdtype = ''object'', svalues = [PStr ''x'' :: string pyval]\<rparr>,
      \<lparr>sname = ''b'', sdtype = ''object'', svalues = [PStr ''x'']\<rparr>] 1))"
proof -
  have h1: "distinct (map fst [(''unk'', [''b'', ''a'', ''a'']), (''missing'', [''a''])])"
    by simp
  have h2: "distinct (columns [\<lparr>sname = ''a'', sdtype = ''object'', svalues = [PStr ''x'' :: string pyval]\<rparr>,
      \<lparr>sname = ''b'', sdtype = ''object'', svalues = [PStr ''x'']\<rparr>])"
    by (simp add: columns_def)
  have h3: "map_of [(''unk'', [''b'', ''a'', ''a'']), (''missing'', [''a''])] ''missing'' = Some [''a'']"
    by simp
  have h4: "int (card {col \<in> set (columns [\<lparr>sname = ''a'', sdtype = ''object'', svalues = [PStr ''x'' :: string pyval]\<rparr>,
      \<lparr>sname = ''b'', sdtype = ''object'', svalues = [PStr ''x'']\<rparr>]). col \<in> set [''a'']}) = 1"
  proof -
    have "{col \<in> set (columns [\<lparr>sname = ''a'', sdtype = ''object'', svalues = [PStr ''x'' :: string pyval]\<rparr>,
      \<lparr>sname = ''b'', sdtype = ''object'', svalues = [PStr ''x'']\<rparr>]). col \<in> set [''a'']} = {''a''}"
      by (auto simp: columns_def)
    then show ?thesis by simp
  qed
  have h5: "map_of [(''unk'', [''b'', ''a'', ''a'']), (''missing'', [''a''])] ''unk'' = Some [''b'', ''a'', ''a'']"
    by simp
  have h6: "int (card {col \<in> set (columns [\<lparr>sname = ''a'', sdtype = ''object'', svalues = [PStr ''x'' :: string pyval]\<rparr>,
      \<lparr>sname = ''b'', sdtype = ''object'', svalues = [PStr ''x'']\<rparr>]). col \<in> set [''b'', ''a'', ''a'']}) = 1 + 1"
  proof -
    have "{col \<in> set (columns [\<lparr>sname = ''a'', sdtype = ''object'', svalues = [PStr ''x'' :: string pyval]\<rparr>,
      \<lparr>sname = ''b'', sdtype = ''object'', svalues = [PStr ''x'']\<rparr>]). col \<in> set [''b'', ''a'', ''a'']} = {''a'', ''b''}"
      by (auto simp: columns_def)
    then show ?thesis by simp
  qed
  from confirmer_threshold[OF h1 h2, where unk = "''missing''" and unk_samples = "[''a'']" and thresh = 1] h3 h4
  have c1: "''missing'' \<notin> set (bf_columns (get_certainly_NaNs [(''unk'', [''b'', ''a'', ''a'']), (''missing'', [''a''])]
     [\<lparr>sname = ''a'', sdtype = ''object'', svalues = [PStr ''x'' :: string pyval]\<rparr>,
      \<lparr>sname = ''b'', sdtype = ''object'', svalues = [PStr ''x'']\<rparr>] 1))"
    by blast
  from confirmer_threshold[OF h1 h2, where unk = "''unk''" and unk_samples = "[''b'', ''a'', ''a'']" and thresh = 1] h5 h6
  have c2: "''unk'' \<in> set (bf_columns (get_certainly_NaNs [(''unk'', [''b'', ''a'', ''a'']), (''missing'', [''a''])]
     [\<lparr>sname = ''a'', sdtype = ''object'', svalues = [PStr ''x'' :: string pyval]\<rparr>,
      \<lparr>sname = ''b'', sdtype = ''object'', svalues = [PStr ''x'']\<rparr>] 1))"
    by blast
  from h1 h2 h3 h4 c1 h5 h6 c2 show ?thesis by (intro conjI)
qed

section \<open>The finalizer re-scans the ambiguous and the textual columns\<close>


lemma df_get_df_replace:
  "df_get (df_replace reinfer md col to_nan) c =
     (if c = col then (case df_get md c of Inl e \<Rightarrow> Inl e | Inr ser \<Rightarrow> Inr (series_replace reinfer to_nan ser))
      else df_get md c)"
  by (induction md)
     (auto simp: df_replace_def df_get_Cons df_get_Nil series_replace_def split: prod.splits)

lemma final_step_other:
  assumes "final_step fo reinfer to_nan ids (col, checks) (dt, fin, md) = Inr (dt', fin', md')" and "c \<noteq> col"
  shows "df_get md' c = df_get md c" and "map_of fin' c = map_of fin c"
  using assms
  by (auto simp: final_step_def Let_def df_get_df_replace map_of_dict_set split: if_splits sum.splits)

lemma final_step_id:
  assumes "final_step fo reinfer to_nan ids (col, checks) (dt, fin, md) = Inr (dt', fin', md')" and "col \<in> set ids"
  shows "md' = md" and "map_of fin' col = Some ''O''"
  using assms
  by (auto simp: final_step_def Let_def map_of_dict_set split: if_splits sum.splits)






section \<open>Identifier columns\<close>

lemma same_but_ids_columns: "same_but_ids ids tab tab' \<Longrightarrow> columns tab = columns tab'"
  unfolding same_but_ids_def columns_def
  by (induction tab tab' rule: list_all2_induct) auto

lemma same_but_ids_df_get:
  "same_but_ids ids tab tab' \<Longrightarrow>
   (df_get tab c = Inl KeyError \<and> df_get tab' c = Inl KeyError) \<or>
   (\<exists>s s'. df_get tab c = Inr s \<and> df_get tab' c = Inr s' \<and> sdtype s = sdtype s' \<and>
            (c \<in> set ids \<or> s = s'))"
  unfolding same_but_ids_def
  by (induction tab tab' rule: list_all2_induct) (auto simp: df_get_Cons df_get_Nil)

lemma same_but_ids_scan_column:
  assumes "same_but_ids ids tab tab'"
  shows "scan_column fo tab' re ids c out = scan_column fo tab re ids c out"
proof -
  obtain dt pu nd where out: "out = (dt, pu, nd)" by (cases out) auto
  from same_but_ids_df_get[OF assms, of c] show ?thesis
    unfolding out by (auto simp: scan_column_def Let_def)
qed

lemma same_but_ids_scan_columns:
  assumes "same_but_ids ids tab tab'"
  shows "scan_columns fo tab' re ids cols out = scan_columns fo tab re ids cols out"
  by (induction cols arbitrary: out)
     (simp_all add: same_but_ids_scan_column[OF assms] split: sum.splits)

lemma final_loop_ids:
  "final_loop fo reinfer to_nan ids items (dt, fin, md) = Inr (dt', fin', md') \<Longrightarrow> column \<in> set ids \<Longrightarrow>
   df_get md' column = df_get md column \<and>
   map_of fin' column = (if column \<in> fst ` set items then Some ''O'' else map_of fin column)"
proof (induction items arbitrary: dt fin md)
  case Nil
  then show ?case by simp
next
  case (Cons item items)
  obtain col checks where i: "item = (col, checks)" by (cases item) auto
  from Cons.prems(1) obtain dt1 fin1 md1 where
    step: "final_step fo reinfer to_nan ids (col, checks) (dt, fin, md) = Inr (dt1, fin1, md1)" and
    rest: "final_loop fo reinfer to_nan ids items (dt1, fin1, md1) = Inr (dt', fin', md')"
    by (auto simp: i split: sum.splits)
  show ?case
  proof (cases "col = column")
    case True
    with final_step_id[OF step] Cons.prems(2) Cons.IH[OF rest Cons.prems(2)] i
    show ?thesis by simp
  next
    case False
    then have "column \<noteq> col" by simp
    from final_step_other[OF step this] Cons.IH[OF rest Cons.prems(2)] i False
    show ?thesis by auto
  qed
qed

text \<open>
  C5. The identifier columns are \<^verbatim>\<open>#SampleID\<close> and \<^verbatim>\<open>sample_name\<close> when the caller
  names none. For an identifier column, whatever it holds: the scanner's result does not
  depend on its values, its tag is \<^verbatim>\<open>object\<close>, no factor lists it, and the finalizer
  gives it the letter \<^verbatim>\<open>O\<close> and leaves its values alone.
\<close>

theorem identifier_columns:
  assumes "column \<in> set (sampleIDs_of sampleID_cols)"
  shows "sampleIDs_of None = [''#SampleID'', ''sample_name'']
       \<and> (same_but_ids (sampleIDs_of sampleID_cols) pd_tab pd_tab' \<longrightarrow>
            get_dtypes_and_unks fo pd_tab' regex_unk sampleID_cols =
            get_dtypes_and_unks fo pd_tab regex_unk sampleID_cols)
       \<and> (get_dtypes_and_unks fo pd_tab regex_unk sampleID_cols = Inr (dtypes, potential_unks, nan_diversity) \<and>
            df_get pd_tab column = Inr ser \<longrightarrow>
            map_of dtypes column = Some [sdtype ser, ''object''] \<and>
            column \<notin> unk_columns potential_unks v)
       \<and> (get_dtypes_final fo reinfer to_nan dtypes_in md_pd sampleID_cols = Inr (dtypes_out, dtypes_final, md_pd') \<and>
            column \<in> fst ` set dtypes_in \<longrightarrow>
            map_of dtypes_final column = Some ''O'' \<and> df_get md_pd' column = df_get md_pd column)"
proof (intro conjI impI)
  show "sampleIDs_of None = [''#SampleID'', ''sample_name'']"
    by (simp add: sampleIDs_of_def)
next
  assume "same_but_ids (sampleIDs_of sampleID_cols) pd_tab pd_tab'"
  from same_but_ids_scan_columns[OF this] same_but_ids_columns[OF this]
  show "get_dtypes_and_unks fo pd_tab' regex_unk sampleID_cols =
        get_dtypes_and_unks fo pd_tab regex_unk sampleID_cols"
    by (simp add: get_dtypes_and_unks_def)
next
  assume a: "get_dtypes_and_unks fo pd_tab regex_unk sampleID_cols = Inr (dtypes, potential_unks, nan_diversity) \<and>
            df_get pd_tab column = Inr ser"
  then have s: "scan_columns fo pd_tab regex_unk (sampleIDs_of sampleID_cols) (columns pd_tab) ([], [], {})
                 = Inr (dtypes, potential_unks, nan_diversity)"
    and g: "df_get pd_tab column = Inr ser"
    by (simp_all add: get_dtypes_and_unks_def)
  from scan_columns_dtypes_in[OF s _ g] df_get_in_columns[OF g] assms
  show "map_of dtypes column = Some [sdtype ser, ''object'']" by simp
  from scan_columns_unk_columns[OF s, of v] assms
  show "column \<notin> unk_columns potential_unks v"
    by (simp add: contributes_def unk_columns_def)
next
  assume a: "get_dtypes_final fo reinfer to_nan dtypes_in md_pd sampleID_cols = Inr (dtypes_out, dtypes_final, md_pd') \<and>
            column \<in> fst ` set dtypes_in"
  from final_loop_ids[OF a[THEN conjunct1, unfolded get_dtypes_final_def] assms] a
  show "map_of dtypes_final column = Some ''O''" "df_get md_pd' column = df_get md_pd column"
    by simp_all
qed


theorem identifier_columns_witness:
  "''sample_name'' \<in> set (sampleIDs_of None)
   \<and> same_but_ids (sampleIDs_of None)
     [\<lparr>sname = ''sample_name'', sdtype = ''object'', svalues = [PStr ''1'' :: string pyval, PStr ''2'']\<rparr>,
      \<lparr>sname = ''ph'', sdtype = ''object'', svalues = [PStr ''7.1'', PStr ''unk'']\<rparr>]
     [\<lparr>sname = ''sample_name'', sdtype = ''object'', svalues = [PStr ''unk'', PStr ''s2'']\<rparr>,
      \<lparr>sname = ''ph'', sdtype = ''object'', svalues = [PStr ''7.1'', PStr ''unk'']\<rparr>]
   \<and> get_dtypes_and_unks ex_ops
     [\<lparr>sname = ''sample_name'', sdtype = ''object'', svalues = [PStr ''1'', PStr ''2'']\<rparr>,
      \<lparr>sname = ''ph'', sdtype = ''object'', svalues = [PStr ''7.1'', PStr ''unk'']\<rparr>]
     (\<lambda>v. v = ''unk'') None
     = Inr ([(''sample_name'', [''object'', ''object'']), (''ph'', [''object'', ''check''])], [(''unk'', [''ph''])], {PStr ''unk''})
   \<and> df_get [\<lparr>sname = ''sample_name'', sdtype = ''object'', svalues = [PStr ''1'' :: string pyval, PStr ''2'']\<rparr>,
      \<lparr>sname = ''ph'', sdtype = ''object'', svalues = [PStr ''7.1'', PStr ''unk'']\<rparr>] ''sample_name''
     = Inr \<lparr>sname = ''sample_name'', sdtype = ''object'', svalues = [PStr ''1'', PStr ''2'']\<rparr>
   \<and> get_dtypes_final ex_ops ex_reinfer [(''unk'', PFloat ''nan'')]
     [(''sample_name'', [''object'', ''object'']), (''ph'', [''object'', ''check''])]
     [\<lparr>sname = ''sample_name'', sdtype = ''object'', svalues = [PStr ''1'', PStr ''2'']\<rparr>,
      \<lparr>sname = ''ph'', sdtype = ''object'', svalues = [PStr ''7.1'', PStr ''unk'']\<rparr>]
     None
     = Inr ([(''sample_name'', [''object'', ''object'', ''object'']), (''ph'', [''object'', ''check'', ''float64''])],
            [(''sample_name'', ''O''), (''ph'', ''Q'')],
            [\<lparr>sname = ''sample_name'', sdtype = ''object'', svalues = [PStr ''1'', PStr ''2'']\<rparr>,
      \<lparr>sname = ''ph'', sdtype = ''object'', svalues = [PStr ''7.1'', PFloat ''nan'']\<rparr>])
   \<and> ''sample_name'' \<in> fst ` set [(''sample_name'', [''object'', ''object'']), (''ph'', [''object'', ''check''])]
   \<and> get_dtypes_and_unks ex_ops
     [\<lparr>sname = ''sample_name'', sdtype = ''object'', svalues = [PStr ''unk'', PStr ''s2'']\<rparr>,
      \<lparr>sname = ''ph'', sdtype = ''object'', svalues = [PStr ''7.1'', PStr ''unk'']\<rparr>]
     (\<lambda>v. v = ''unk'') None
     = get_dtypes_and_unks ex_ops
     [\<lparr>sname = ''sample_name'', sdtype = ''object'', svalues = [PStr ''1'', PStr ''2'']\<rparr>,
      \<lparr>sname = ''ph'', sdtype = ''object'', svalues = [PStr ''7.1'', PStr ''unk'']\<rparr>]
     (\<lambda>v. v = ''unk'') None
   \<and> map_of [(''sample_name'', [''object'', ''object'']), (''ph'', [''object'', ''check''])] ''sample_name''
     = Some [sdtype \<lparr>sname = ''sample_name'', sdtype = ''object'', svalues = [PStr ''1'' :: string pyval, PStr ''2'']\<rparr>, ''object'']
   \<and> ''sample_name'' \<notin> unk_columns [(''unk'', [''ph''])] ''unk''
   \<and> map_of [(''sample_name'', ''O''), (''ph'', ''Q'')] ''sample_name'' = Some ''O''
   \<and> df_get [\<lparr>sname = ''sample_name'', sdtype = ''object'', svalues = [PStr ''1'', PStr ''2'']\<rparr>,
      \<lparr>sname = ''ph'', sdtype = ''object'', svalues = [PStr ''7.1'', PFloat ''nan'']\<rparr>] ''sample_name''
     = df_get [\<lparr>sname = ''sample_name'', sdtype = ''object'', svalues = [PStr ''1'', PStr ''2'']\<rparr>,
      \<lparr>sname = ''ph'', sdtype = ''object'', svalues = [PStr ''7.1'', PStr ''unk'']\<rparr>] ''sample_name''"
proof -
  have h0: "''sample_name'' \<in> set (sampleIDs_of None)"
    by code_simp
  have h1: "same_but_ids (sampleIDs_of None)
     [\<lparr>sname = ''sample_name'', sdtype = ''object'', svalues = [PStr ''1'' :: string pyval, PStr ''2'']\<rparr>,
      \<lparr>sname = ''ph'', sdtype = ''object'', svalues = [PStr ''7.1'', PStr ''unk'']\<rparr>]
     [\<lparr>sname = ''sample_name'', sdtype = ''object'', svalues = [PStr ''unk'', PStr ''s2'']\<rparr>,
      \<lparr>sname = ''ph'', sdtype = ''object'', svalues = [PStr ''7.1'', PStr ''unk'']\<rparr>]"
    by code_simp
  have h2: "get_dtypes_and_unks ex_ops
     [\<lparr>sname = ''sample_name'', sdtype = ''object'', svalues = [PStr ''1'', PStr ''2'']\<rparr>,
      \<lparr>sname = ''ph'', sdtype = ''object'', svalues = [PStr ''7.1'', PStr ''unk'']\<rparr>]
     (\<lambda>v. v = ''unk'') None
     = Inr ([(''sample_name'', [''object'', ''object'']), (''ph'', [''object'', ''check''])], [(''unk'', [''ph''])], {PStr ''unk''})"
    by code_simp
  have h3: "df_get [\<lparr>sname = ''sample_name'', sdtype = ''object'', svalues = [PStr ''1'' :: string pyval, PStr ''2'']\<rparr>,
      \<lparr>sname = ''ph'', sdtype = ''object'', svalues = [PStr ''7.1'', PStr ''unk'']\<rparr>] ''sample_name''
     = Inr \<lparr>sname = ''sample_name'', sdtype = ''object'', svalues = [PStr ''1'', PStr ''2'']\<rparr>"
    by code_simp
  have h4: "get_dtypes_final ex_ops ex_reinfer [(''unk'', PFloat ''nan'')]
     [(''sample_name'', [''object'', ''object'']), (''ph'', [''object'', ''check''])]
     [\<lparr>sname = ''sample_name'', sdtype = ''object'', svalues = [PStr ''1'', PStr ''2'']\<rparr>,
      \<lparr>sname = ''ph'', sdtype = ''object'', svalues = [PStr ''7.1'', PStr ''unk'']\<rparr>]
     None
     = Inr ([(''sample_name'', [''object'', ''object'', ''object'']), (''ph'', [''object'', ''check'', ''float64''])],
            [(''sample_name'', ''O''), (''ph'', ''Q'')],
            [\<lparr>sname = ''sample_name'', sdtype = ''object'', svalues = [PStr ''1'', PStr ''2'']\<rparr>,
      \<lparr>sname = ''ph'', sdtype = ''object'', svalues = [PStr ''7.1'', PFloat ''nan'']\<rparr>])"
    by code_simp
  have h5: "''sample_name'' \<in> fst ` set [(''sample_name'', [''object'', ''object'']), (''ph'', [''object'', ''check''])]"
    by simp
  note t = identifier_columns[OF h0, where fo = ex_ops and reinfer = ex_reinfer and regex_unk = "(\<lambda>v. v = ''unk'')"
      and pd_tab = "[\<lparr>sname = ''sample_name'', sdtype = ''object'', svalues = [PStr ''1'', PStr ''2'']\<rparr>,
      \<lparr>sname = ''ph'', sdtype = ''object'', svalues = [PStr ''7.1'', PStr ''unk'']\<rparr>]"
      and pd_tab' = "[\<lparr>sname = ''sample_name'', sdtype = ''object'', svalues = [PStr ''unk'', PStr ''s2'']\<rparr>,
      \<lparr>sname = ''ph'', sdtype = ''object'', svalues = [PStr ''7.1'', PStr ''unk'']\<rparr>]"
      and dtypes = "[(''sample_name'', [''object'', ''object'']), (''ph'', [''object'', ''check''])]"
      and potential_unks = "[(''unk'', [''ph''])]" and nan_diversity = "{PStr ''unk''}"
      and ser = "\<lparr>sname = ''sample_name'', sdtype = ''object'', svalues = [PStr ''1'', PStr ''2'']\<rparr>" and v = "''unk''"
      and to_nan = "[(''unk'', PFloat ''nan'')]" and dtypes_in = "[(''sample_name'', [''object'', ''object'']), (''ph'', [''object'', ''check''])]"
      and md_pd = "[\<lparr>sname = ''sample_name'', sdtype = ''object'', svalues = [PStr ''1'', PStr ''2'']\<rparr>,
      \<lparr>sname = ''ph'', sdtype = ''object'', svalues = [PStr ''7.1'', PStr ''unk'']\<rparr>]"
      and dtypes_out = "[(''sample_name'', [''object'', ''object'', ''object'']), (''ph'', [''object'', ''check'', ''float64''])]"
      and dtypes_final = "[(''sample_name'', ''O''), (''ph'', ''Q'')]"
      and md_pd' = "[\<lparr>sname = ''sample_name'', sdtype = ''object'', svalues = [PStr ''1'', PStr ''2'']\<rparr>,
      \<lparr>sname = ''ph'', sdtype = ''object'', svalues = [PStr ''7.1'', PFloat ''nan'']\<rparr>]"]
  from t h1 have c1: "get_dtypes_and_unks ex_ops
     [\<lparr>sname = ''sample_name'', sdtype = ''object'', svalues = [PStr ''unk'', PStr ''s2'']\<rparr>,
      \<lparr>sname = ''ph'', sdtype = ''object'', svalues = [PStr ''7.1'', PStr ''unk'']\<rparr>]
     (\<lambda>v. v = ''unk'') None
     = get_dtypes_and_unks ex_ops
     [\<lparr>sname = ''sample_name'', sdtype = ''object'', svalues = [PStr ''1'', PStr ''2'']\<rparr>,
      \<lparr>sname = ''ph'', sdtype = ''object'', svalues = [PStr ''7.1'', PStr ''unk'']\<rparr>]
     (\<lambda>v. v = ''unk'') None"
    by blast
  from t h2 h3 have c2: "map_of [(''sample_name'', [''object'', ''object'']), (''ph'', [''object'', ''check''])] ''sample_name''
     = Some [sdtype \<lparr>sname = ''sample_name'', sdtype = ''object'', svalues = [PStr ''1'' :: string pyval, PStr ''2'']\<rparr>, ''object'']"
    by blast
  from t h2 h3 have c3: "''sample_name'' \<notin> unk_columns [(''unk'', [''ph''])] ''unk''"
    by blast
  from t h4 h5 have c4: "map_of [(''sample_name'', ''O''), (''ph'', ''Q'')] ''sample_name'' = Some ''O''"
    by blast
  from t h4 h5 have c5: "df_get [\<lparr>sname = ''sample_name'', sdtype = ''object'', svalues = [PStr ''1'', PStr ''2'']\<rparr>,
      \<lparr>sname = ''ph'', sdtype = ''object'', svalues = [PStr ''7.1'', PFloat ''nan'']\<rparr>] ''sample_name''
     = df_get [\<lparr>sname = ''sample_name'', sdtype = ''object'', svalues = [PStr ''1'', PStr ''2'']\<rparr>,
      \<lparr>sname = ''ph'', sdtype = ''object'', svalues = [PStr ''7.1'', PStr ''unk'']\<rparr>] ''sample_name''"
    by blast
  from h0 h1 h2 h3 h4 h5 c1 c2 c3 c4 c5 show ?thesis by (intro conjI)
qed

end
